theory Spec2Isabelle
  imports Main "HOL-Library.AList"
begin

section \<open>Values, exceptions and external data\<close>

text \<open>
  The script \<^verbatim>\<open>cortex_analyst_streamlit.py\<close> handles parsed JSON throughout: the reply
  of the REST API, the content of a turn and every content item are what
  \<^verbatim>\<open>resp.json()\<close> produced. A Python dict is an association list in insertion order,
  \<^verbatim>\<open>None\<close> is \<open>JNull\<close>. JSON numbers are restricted to integers; no function of the
  script computes with them.
\<close>

datatype json =
    JNull
  | JBool bool
  | JNum int
  | JStr string
  | JArr "json list"
  | JObj "(string \<times> json) list"

type_synonym dict = "(string \<times> json) list"

text \<open>
  The subclasses of Python's \<^verbatim>\<open>Exception\<close> that the script can meet. All of them are
  caught by \<^verbatim>\<open>except Exception\<close>. Streamlit's \<^verbatim>\<open>st.stop()\<close> is not among them: it
  raises a \<^verbatim>\<open>BaseException\<close> and is the constructor \<open>Stop\<close> of \<open>halt\<close> below.
\<close>

datatype exn =
    KeyError string
  | TypeError
  | AttributeError
  | DuplicateWidgetID string
  | RequestException string
  | JSONDecodeError
  | DatabaseError string
  | ValueError

datatype halt = Stop | Uncaught exn

record connection =
  token :: string

text \<open>
  A pandas DataFrame, column by column: \<open>nrows\<close> is \<^verbatim>\<open>len(df.index)\<close>, \<open>columns\<close>
  holds each data column's label with its cells, \<open>index\<close> is the column moved into
  the index by \<^verbatim>\<open>set_index\<close> (\<open>None\<close>: the default range index). Two columns may
  carry the same label, as in \<^verbatim>\<open>SELECT a.id, b.id\<close>.
\<close>

record dataframe =
  nrows :: nat
  index :: "(string \<times> string list) option"
  columns :: "(string \<times> string list) list"

definition set_index :: "dataframe \<Rightarrow> dataframe" where
  \<comment> \<open>\<^verbatim>\<open>df.set_index(df.columns[0])\<close>; only called when there are two columns or more\<close>
  "set_index df =
     (case columns df of
        [] \<Rightarrow> df
      | c # cs \<Rightarrow> df\<lparr>index := Some c, columns := cs\<rparr>)"

record http_request =
  http_method :: string
  url :: string
  body :: json
  headers :: "(string \<times> string) list"

record http_response =
  status_code :: int
  response_headers :: "(string \<times> string) list"  \<comment> \<open>\<^verbatim>\<open>resp.headers\<close>, an entry for each name\<close>
  response_text :: string
  response_json :: "exn + json"  \<comment> \<open>what \<^verbatim>\<open>resp.json()\<close> returns or raises\<close>

record turn =
  turn_role :: string
  turn_content :: json
  turn_request_id :: json  \<comment> \<open>\<open>JNull\<close> where the dict has no such key: it is read with \<^verbatim>\<open>.get\<close> only\<close>

section \<open>The user interface as a tree of widgets\<close>

datatype notice =
    Secrets_not_found
  | Connect_failed exn
  | Request_failed int string
  | Send_failed exn

datatype widget =
    Title string
  | Markdown json
  | Error_box notice
  | Success string
  | Spinner string
  | Code json string
  | Button string string  \<comment> \<open>label and key\<close>
  | Dataframe dataframe
  | Line_chart dataframe
  | Bar_chart dataframe
  | Expander string bool "widget list"
  | Chat_message string "widget list"
  | Tabs "(string \<times> widget list) list"

section \<open>State and environment\<close>

text \<open>
  \<open>CONN\<close>, \<open>messages\<close>, \<open>suggestions\<close> and \<open>active_suggestion\<close> are the entries of
  \<^verbatim>\<open>st.session_state\<close>; \<open>messages = None\<close> says that the key is not there yet.
  \<open>widget_keys\<close> are the keys of the widgets registered in the current run of the
  script, \<open>posts\<close> the HTTP requests sent and \<open>queries\<close> the SQL statements executed so
  far.
\<close>

record state =
  CONN :: "connection option"
  messages :: "turn list option"
  suggestions :: "json list"
  active_suggestion :: "string option"
  widget_keys :: "string list"
  posts :: "http_request list"
  queries :: "json list"

text \<open>
  What the script reads from outside: the secrets file, the database connector, the
  REST endpoint, the database, and the user's action that started this run. The
  endpoint and the database may answer differently each time: their first argument is
  the number of earlier calls.
\<close>

record world =
  secrets :: "string \<rightharpoonup> (string \<rightharpoonup> string)"
  connect :: "(string \<times> string) list \<Rightarrow> exn + connection"
  post :: "nat \<Rightarrow> http_request \<Rightarrow> exn + http_response"
  read_sql :: "nat \<Rightarrow> json \<Rightarrow> exn + dataframe"
  clicked :: "string option"  \<comment> \<open>key of the button whose click started this run\<close>
  chat_input :: "string option"

section \<open>Actions: state, output and exceptions\<close>

text \<open>
  A piece of the script takes the state and returns its result or the exception it
  raised, the widgets it rendered, and the new state. What was rendered and stored
  before an exception stays.
\<close>

type_synonym ('e, 'a) action = "state \<Rightarrow> ('e + 'a) \<times> widget list \<times> state"

definition returns :: "'a \<Rightarrow> ('e, 'a) action" where
  "returns x s = (Inr x, [], s)"

definition raises :: "'e \<Rightarrow> ('e, 'a) action" where
  "raises e s = (Inl e, [], s)"

definition from_result :: "'e + 'a \<Rightarrow> ('e, 'a) action" where
  "from_result r s = (r, [], s)"

definition render :: "widget \<Rightarrow> ('e, unit) action" where
  "render wd s = (Inr (), [wd], s)"

definition then_do :: "('e, 'a) action \<Rightarrow> ('a \<Rightarrow> ('e, 'b) action) \<Rightarrow> ('e, 'b) action" where
  "then_do m f s =
     (case m s of
        (Inl e, out, s') \<Rightarrow> (Inl e, out, s')
      | (Inr x, out, s') \<Rightarrow> (case f x s' of (r, out', s'') \<Rightarrow> (r, out @ out', s'')))"

definition within :: "(widget list \<Rightarrow> widget) \<Rightarrow> ('e, 'a) action \<Rightarrow> ('e, 'a) action" where
  \<comment> \<open>a \<^verbatim>\<open>with\<close> block of a container: what the body renders goes inside\<close>
  "within container m s = (case m s of (r, out, s') \<Rightarrow> (r, [container out], s'))"

definition uncaught :: "(exn, 'a) action \<Rightarrow> (halt, 'a) action" where
  "uncaught m s = (case m s of (Inl e, out, s') \<Rightarrow> (Inl (Uncaught e), out, s') | (Inr x, out, s') \<Rightarrow> (Inr x, out, s'))"

definition and_then :: "'e + 'a \<Rightarrow> ('a \<Rightarrow> 'e + 'b) \<Rightarrow> 'e + 'b" where
  "and_then r f = (case r of Inl e \<Rightarrow> Inl e | Inr x \<Rightarrow> f x)"

section \<open>Python's dynamic operations on JSON values\<close>

fun truthy :: "json \<Rightarrow> bool" where
  "truthy JNull = False"
| "truthy (JBool b) = b"
| "truthy (JNum n) = (n \<noteq> 0)"
| "truthy (JStr s) = (s \<noteq> [])"
| "truthy (JArr xs) = (xs \<noteq> [])"
| "truthy (JObj kvs) = (kvs \<noteq> [])"

fun py_iter :: "json \<Rightarrow> exn + json list" where
  \<comment> \<open>\<^verbatim>\<open>for x in v\<close>: a list gives its elements, a str its characters, a dict its keys\<close>
  "py_iter (JArr xs) = Inr xs"
| "py_iter (JStr s) = Inr (map (\<lambda>c. JStr [c]) s)"
| "py_iter (JObj kvs) = Inr (map (\<lambda>kv. JStr (fst kv)) kvs)"
| "py_iter _ = Inl TypeError"

fun py_getitem :: "json \<Rightarrow> string \<Rightarrow> exn + json" where
  \<comment> \<open>\<^verbatim>\<open>v[k]\<close> for a str key \<open>k\<close>\<close>
  "py_getitem (JObj kvs) k = (case map_of kvs k of None \<Rightarrow> Inl (KeyError k) | Some v \<Rightarrow> Inr v)"
| "py_getitem _ k = Inl TypeError"

definition dict_get :: "dict \<Rightarrow> string \<Rightarrow> json \<Rightarrow> json" where
  \<comment> \<open>\<^verbatim>\<open>d.get(k, default)\<close> on a dict\<close>
  "dict_get d k dflt = (case map_of d k of None \<Rightarrow> dflt | Some v \<Rightarrow> v)"

fun py_get :: "json \<Rightarrow> string \<Rightarrow> json \<Rightarrow> exn + json" where
  \<comment> \<open>\<^verbatim>\<open>v.get(k, default)\<close> on any value: only a dict has the method\<close>
  "py_get (JObj kvs) k dflt = Inr (dict_get kvs k dflt)"
| "py_get _ k dflt = Inl AttributeError"

definition config_get :: "(string \<rightharpoonup> string) \<Rightarrow> string \<Rightarrow> exn + string" where
  \<comment> \<open>\<^verbatim>\<open>snowflake_config[k]\<close>\<close>
  "config_get cfg k = (case cfg k of None \<Rightarrow> Inl (KeyError k) | Some v \<Rightarrow> Inr v)"

fun str_nat :: "nat \<Rightarrow> string" where
  \<comment> \<open>\<^verbatim>\<open>str(n)\<close> of a non-negative int\<close>
  "str_nat n =
     (if n < 10 then [char_of (48 + n)]
      else str_nat (n div 10) @ [char_of (48 + n mod 10)])"

declare str_nat.simps [simp del]

definition lower_char :: "char \<Rightarrow> char" where
  \<comment> \<open>\<^verbatim>\<open>str.lower()\<close> on one character of a header name (Latin-1)\<close>
  "lower_char c =
     (let n = (of_char c :: nat)
      in if (65 \<le> n \<and> n \<le> 90) \<or> (192 \<le> n \<and> n \<le> 222 \<and> n \<noteq> 215)
         then char_of (n + 32) else c)"

definition headers_get :: "(string \<times> string) list \<Rightarrow> string \<Rightarrow> string option" where
  \<comment> \<open>\<^verbatim>\<open>resp.headers.get(name)\<close>: the headers of a response are a dict whose keys are
      compared in lower case\<close>
  "headers_get hs name =
     map_of (map (\<lambda>h. (map lower_char (fst h), snd h)) hs) (map lower_char name)"

section \<open>Calls that leave the script\<close>

definition requests_post :: "world \<Rightarrow> http_request \<Rightarrow> (exn, http_response) action" where
  "requests_post w req s = (post w (length (posts s)) req, [], s\<lparr>posts := posts s @ [req]\<rparr>)"

definition read_sql_query :: "world \<Rightarrow> json \<Rightarrow> (exn, dataframe) action" where
  "read_sql_query w statement s =
     (read_sql w (length (queries s)) statement, [], s\<lparr>queries := queries s @ [statement]\<rparr>)"

definition st_button :: "world \<Rightarrow> string \<Rightarrow> string \<Rightarrow> (exn, bool) action" where
  \<comment> \<open>\<^verbatim>\<open>st.button(label, key=key)\<close>: a key used twice in one run is an error; the result is
      whether this button's click started the run\<close>
  "st_button w label key s =
     (if key \<in> set (widget_keys s) then (Inl (DuplicateWidgetID key), [], s)
      else (Inr (clicked w = Some key), [Button label key], s\<lparr>widget_keys := widget_keys s @ [key]\<rparr>))"

section \<open>\<^verbatim>\<open>send_message\<close>\<close>

definition semantic_model_file :: "(string \<rightharpoonup> string) \<Rightarrow> exn + string" where
  "semantic_model_file cfg =
     and_then (config_get cfg ''database'') (\<lambda>database.
     and_then (config_get cfg ''schema'') (\<lambda>schema.
     and_then (config_get cfg ''stage'') (\<lambda>stage.
     and_then (config_get cfg ''file'') (\<lambda>file.
     Inr (''@'' @ database @ ''.'' @ schema @ ''.'' @ stage @ ''/'' @ file)))))"

definition session_token :: "(exn, string) action" where
  \<comment> \<open>\<^verbatim>\<open>st.session_state.CONN.rest.token\<close>\<close>
  "session_token s =
     (case CONN s of None \<Rightarrow> (Inl AttributeError, [], s) | Some conn \<Rightarrow> (Inr (token conn), [], s))"

definition send_message_try :: "world \<Rightarrow> (string \<rightharpoonup> string) \<Rightarrow> string \<Rightarrow> (exn, dict) action" where
  \<comment> \<open>the body of the \<^verbatim>\<open>try\<close> block\<close>
  "send_message_try w cfg prompt =
     then_do (from_result (semantic_model_file cfg)) (\<lambda>model_file.
     then_do (from_result (config_get cfg ''host'')) (\<lambda>host.
     then_do session_token (\<lambda>tok.
     then_do (requests_post w
       \<lparr>http_method = ''POST'',
        url = ''https://'' @ host @ ''/api/v2/cortex/analyst/message'',
        body = JObj
          [(''messages'',
            JArr [JObj [(''role'', JStr ''user''),
                        (''content'', JArr [JObj [(''type'', JStr ''text''), (''text'', JStr prompt)]])]]),
           (''semantic_model_file'', JStr model_file)],
        headers =
          [(''Authorization'', ''Snowflake Token='' @ [CHR 0x22] @ tok @ [CHR 0x22]),
           (''Content-Type'', ''application/json'')]\<rparr>) (\<lambda>resp.
     let request_id =
           (case headers_get (response_headers resp) ''X-Snowflake-Request-Id'' of
              None \<Rightarrow> JNull
            | Some v \<Rightarrow> JStr v)
     in
       if status_code resp < 400 then
         then_do (from_result (response_json resp)) (\<lambda>parsed.
           case parsed of
             JObj kvs \<Rightarrow> returns (AList.update ''request_id'' request_id kvs)
           | _ \<Rightarrow> raises TypeError)
       else
         then_do (render (Error_box (Request_failed (status_code resp) (response_text resp)))) (\<lambda>_.
         returns [])))))"

definition send_message :: "world \<Rightarrow> (string \<rightharpoonup> string) \<Rightarrow> string \<Rightarrow> (exn, dict) action" where
  \<comment> \<open>\<^verbatim>\<open>except Exception as e: st.error(...); return {}\<close>\<close>
  "send_message w cfg prompt s =
     (case send_message_try w cfg prompt s of
        (Inl e, out, s') \<Rightarrow> (Inr [], out @ [Error_box (Send_failed e)], s')
      | (Inr reply, out, s') \<Rightarrow> (Inr reply, out, s'))"

section \<open>\<^verbatim>\<open>display_content\<close>\<close>

definition len_messages :: "(exn, nat) action" where
  \<comment> \<open>\<^verbatim>\<open>len(st.session_state.messages)\<close>\<close>
  "len_messages s =
     (case messages s of None \<Rightarrow> (Inl AttributeError, [], s) | Some log \<Rightarrow> (Inr (length log), [], s))"

definition message_index_or :: "nat option \<Rightarrow> (exn, nat) action \<Rightarrow> (exn, nat) action" where
  \<comment> \<open>\<^verbatim>\<open>message_index or ...\<close>: \<^verbatim>\<open>None\<close> and \<^verbatim>\<open>0\<close> are falsy, and only then is the
      right-hand side evaluated\<close>
  "message_index_or message_index alternative =
     (case message_index of
        None \<Rightarrow> alternative
      | Some i \<Rightarrow> if i = 0 then alternative else returns i)"

definition button_key :: "nat \<Rightarrow> nat \<Rightarrow> string" where
  \<comment> \<open>\<^verbatim>\<open>f"{message_index}_{suggestion_index}"\<close>\<close>
  "button_key message_index suggestion_index =
     str_nat message_index @ ''_'' @ str_nat suggestion_index"

definition set_active_suggestion :: "string option \<Rightarrow> (exn, unit) action" where
  "set_active_suggestion v s = (Inr (), [], s\<lparr>active_suggestion := v\<rparr>)"

fun suggestion_buttons :: "world \<Rightarrow> nat \<Rightarrow> nat \<Rightarrow> json list \<Rightarrow> (exn, unit) action" where
  \<comment> \<open>\<^verbatim>\<open>for suggestion_index, suggestion in enumerate(...)\<close>; a label that is not a str
      is refused by \<^verbatim>\<open>st.button\<close>\<close>
  "suggestion_buttons w message_index suggestion_index [] = returns ()"
| "suggestion_buttons w message_index suggestion_index (suggestion # rest) =
     (case suggestion of
        JStr label \<Rightarrow>
          then_do (st_button w label (button_key message_index suggestion_index)) (\<lambda>pressed.
          then_do (if pressed then set_active_suggestion (Some label) else returns ()) (\<lambda>_.
          suggestion_buttons w message_index (Suc suggestion_index) rest))
      | _ \<Rightarrow> raises TypeError)"

definition st_dataframe :: "dataframe \<Rightarrow> (exn, unit) action" where
  \<comment> \<open>\<^verbatim>\<open>st.dataframe(df)\<close>: Streamlit refuses a frame with duplicate column labels\<close>
  "st_dataframe df =
     (if distinct (map fst (columns df)) then render (Dataframe df) else raises ValueError)"

definition show_result :: "dataframe \<Rightarrow> (exn, unit) action" where
  \<comment> \<open>lines 101 to 113: the three tabs are created first; \<^verbatim>\<open>data_tab.dataframe(df)\<close> can
      raise and then leaves them empty\<close>
  "show_result df =
     (if 1 < nrows df then
        (if distinct (map fst (columns df)) then
           (let charted = (if 1 < length (columns df) then set_index df else df)
            in render (Tabs [(''Data'', [Dataframe df]),
                             (''Line Chart'', [Line_chart charted]),
                             (''Bar Chart'', [Bar_chart charted])]))
         else
           then_do (render (Tabs [(''Data'', []), (''Line Chart'', []), (''Bar Chart'', [])])) (\<lambda>_.
           raises ValueError))
      else st_dataframe df)"

definition display_item :: "world \<Rightarrow> nat \<Rightarrow> json \<Rightarrow> (exn, unit) action" where
  "display_item w message_index item =
     then_do (from_result (py_getitem item ''type'')) (\<lambda>ty.
     if ty = JStr ''text'' then
       then_do (from_result (py_getitem item ''text'')) (\<lambda>text. render (Markdown text))
     else if ty = JStr ''suggestions'' then
       within (Expander ''Suggestions'' True)
         (then_do (from_result (and_then (py_getitem item ''suggestions'') py_iter))
            (suggestion_buttons w message_index 0))
     else if ty = JStr ''sql'' then
       then_do (within (Expander ''SQL Query'' False)
                 (then_do (from_result (py_getitem item ''statement'')) (\<lambda>statement.
                  render (Code statement ''sql'')))) (\<lambda>_.
       within (Expander ''Results'' True)
         (then_do (render (Spinner ''Running SQL...'')) (\<lambda>_.
          then_do (from_result (py_getitem item ''statement'')) (\<lambda>statement.
          then_do (read_sql_query w statement) (\<lambda>df.
          show_result df)))))
     else returns ())"

fun display_items :: "world \<Rightarrow> nat \<Rightarrow> json list \<Rightarrow> (exn, unit) action" where
  \<comment> \<open>\<^verbatim>\<open>for item in content\<close>\<close>
  "display_items w message_index [] = returns ()"
| "display_items w message_index (item # rest) =
     then_do (display_item w message_index item) (\<lambda>_. display_items w message_index rest)"

definition display_content :: "world \<Rightarrow> json \<Rightarrow> json \<Rightarrow> nat option \<Rightarrow> (exn, unit) action" where
  "display_content w content request_id message_index =
     then_do (message_index_or message_index len_messages) (\<lambda>message_index.
     then_do (if truthy request_id
              then within (Expander ''Request ID'' False) (render (Markdown request_id))
              else returns ()) (\<lambda>_.
     then_do (from_result (py_iter content)) (display_items w message_index)))"

section \<open>\<^verbatim>\<open>process_message\<close>\<close>

definition append_message :: "turn \<Rightarrow> (exn, unit) action" where
  \<comment> \<open>\<^verbatim>\<open>st.session_state.messages.append(t)\<close>\<close>
  "append_message t s =
     (case messages s of
        None \<Rightarrow> (Inl AttributeError, [], s)
      | Some log \<Rightarrow> (Inr (), [], s\<lparr>messages := Some (log @ [t])\<rparr>))"

definition process_message :: "world \<Rightarrow> (string \<rightharpoonup> string) \<Rightarrow> string \<Rightarrow> (exn, unit) action" where
  "process_message w cfg prompt =
     then_do (append_message
       \<lparr>turn_role = ''user'',
        turn_content = JArr [JObj [(''type'', JStr ''text''), (''text'', JStr prompt)]],
        turn_request_id = JNull\<rparr>) (\<lambda>_.
     then_do (within (Chat_message ''user'') (render (Markdown (JStr prompt)))) (\<lambda>_.
     then_do (within (Chat_message ''assistant'')
       (then_do (render (Spinner ''Generating response...'')) (\<lambda>_.
        then_do (send_message w cfg prompt) (\<lambda>response.
        then_do (from_result
                  (py_get (dict_get response ''message'' (JObj [])) ''content'' (JArr []))) (\<lambda>content.
        then_do (display_content w content (dict_get response ''request_id'' JNull) None) (\<lambda>_.
        returns (content, dict_get response ''request_id'' JNull))))))) (\<lambda>(content, request_id).
     append_message
       \<lparr>turn_role = ''assistant'', turn_content = content, turn_request_id = request_id\<rparr>)))"

section \<open>The script, top to bottom\<close>

definition connect_args :: "(string \<rightharpoonup> string) \<Rightarrow> exn + (string \<times> string) list" where
  "connect_args cfg =
     and_then (config_get cfg ''user'') (\<lambda>user.
     and_then (config_get cfg ''password'') (\<lambda>password.
     and_then (config_get cfg ''account'') (\<lambda>account.
     and_then (config_get cfg ''warehouse'') (\<lambda>warehouse.
     and_then (config_get cfg ''database'') (\<lambda>database.
     and_then (config_get cfg ''schema'') (\<lambda>schema.
     and_then (config_get cfg ''role'') (\<lambda>role.
     Inr [(''user'', user), (''password'', password), (''account'', account),
          (''warehouse'', warehouse), (''database'', database), (''schema'', schema),
          (''role'', role)])))))))"

definition load_secrets :: "world \<Rightarrow> (halt, string \<rightharpoonup> string) action" where
  \<comment> \<open>\<^verbatim>\<open>snowflake_config = st.secrets["snowflake"]\<close>, and \<^verbatim>\<open>st.stop()\<close> on a KeyError\<close>
  "load_secrets w =
     (case secrets w ''snowflake'' of
        None \<Rightarrow> then_do (render (Error_box Secrets_not_found)) (\<lambda>_. raises Stop)
      | Some cfg \<Rightarrow> returns cfg)"

definition init_connection :: "world \<Rightarrow> (string \<rightharpoonup> string) \<Rightarrow> (halt, unit) action" where
  "init_connection w cfg s =
     (if CONN s = None then
        (case and_then (connect_args cfg) (connect w) of
           Inr conn \<Rightarrow>
             (Inr (), [Success ''Connected to Snowflake successfully!''], s\<lparr>CONN := Some conn\<rparr>)
         | Inl e \<Rightarrow> (Inl Stop, [Error_box (Connect_failed e)], s))
      else (Inr (), [], s))"

definition init_messages :: "(halt, unit) action" where
  "init_messages s =
     (Inr (), [],
      if messages s = None
      then s\<lparr>messages := Some [], suggestions := [], active_suggestion := None\<rparr>
      else s)"

fun display_messages :: "world \<Rightarrow> nat \<Rightarrow> turn list \<Rightarrow> (exn, unit) action" where
  \<comment> \<open>\<^verbatim>\<open>for message_index, message in enumerate(st.session_state.messages)\<close>\<close>
  "display_messages w message_index [] = returns ()"
| "display_messages w message_index (message # rest) =
     then_do (within (Chat_message (turn_role message))
               (display_content w (turn_content message) (turn_request_id message)
                  (Some message_index))) (\<lambda>_.
     display_messages w (Suc message_index) rest)"

definition display_existing_messages :: "world \<Rightarrow> (exn, unit) action" where
  "display_existing_messages w s =
     (case messages s of
        None \<Rightarrow> (Inl AttributeError, [], s)
      | Some log \<Rightarrow> display_messages w 0 log s)"

definition handle_chat_input :: "world \<Rightarrow> (string \<rightharpoonup> string) \<Rightarrow> (exn, unit) action" where
  \<comment> \<open>\<^verbatim>\<open>if user_input := st.chat_input(...): process_message(prompt=user_input)\<close>\<close>
  "handle_chat_input w cfg =
     (case chat_input w of
        None \<Rightarrow> returns ()
      | Some user_input \<Rightarrow>
          if user_input \<noteq> [] then process_message w cfg user_input else returns ())"

definition handle_active_suggestion :: "world \<Rightarrow> (string \<rightharpoonup> string) \<Rightarrow> (exn, unit) action" where
  \<comment> \<open>\<^verbatim>\<open>if st.session_state.active_suggestion:\<close> tests truthiness: \<^verbatim>\<open>None\<close> and \<^verbatim>\<open>""\<close>
      are both falsy\<close>
  "handle_active_suggestion w cfg s =
     (case active_suggestion s of
        None \<Rightarrow> returns () s
      | Some suggestion \<Rightarrow>
          if suggestion \<noteq> []
          then then_do (process_message w cfg suggestion) (\<lambda>_. set_active_suggestion None) s
          else returns () s)"

definition chat_page :: "world \<Rightarrow> (string \<rightharpoonup> string) \<Rightarrow> (exn, unit) action" where
  \<comment> \<open>the last three blocks of the script: display existing messages, process user
      input, handle active suggestions\<close>
  "chat_page w cfg =
     then_do (display_existing_messages w) (\<lambda>_.
     then_do (handle_chat_input w cfg) (\<lambda>_.
     handle_active_suggestion w cfg))"

definition new_run :: "(halt, unit) action" where
  \<comment> \<open>every run of the script registers its widgets afresh\<close>
  "new_run s = (Inr (), [], s\<lparr>widget_keys := []\<rparr>)"

definition script :: "world \<Rightarrow> (halt, unit) action" where
  "script w =
     then_do new_run (\<lambda>_.
     then_do (load_secrets w) (\<lambda>snowflake_config.
     then_do (init_connection w snowflake_config) (\<lambda>_.
     then_do (render (Title ''Cortex Analyst'')) (\<lambda>_.
     then_do (uncaught (from_result (config_get snowflake_config ''file''))) (\<lambda>file.
     then_do (render (Markdown (JStr (''Semantic Model: `'' @ file @ ''`'')))) (\<lambda>_.
     then_do init_messages (\<lambda>_.
     uncaught (chat_page w snowflake_config))))))))"

section \<open>The buttons of a rendering\<close>

fun widget_buttons :: "widget \<Rightarrow> (string \<times> string) list" where
  \<comment> \<open>label and key of every button in a widget, in the order of rendering\<close>
  "widget_buttons (Button label key) = [(label, key)]"
| "widget_buttons (Expander label expanded inner) = concat (map widget_buttons inner)"
| "widget_buttons (Chat_message name inner) = concat (map widget_buttons inner)"
| "widget_buttons (Tabs tabs) = concat (map (\<lambda>tab. concat (map widget_buttons (snd tab))) tabs)"
| "widget_buttons _ = []"

definition buttons :: "widget list \<Rightarrow> (string \<times> string) list" where
  "buttons out = concat (map widget_buttons out)"

definition pressed_slot :: "string option \<Rightarrow> (string \<times> string) list \<Rightarrow> string option \<Rightarrow> string option" where
  \<comment> \<open>the slot after these buttons were rendered, when \<open>click\<close> started the run\<close>
  "pressed_slot click bs slot = foldl (\<lambda>a b. if click = Some (snd b) then Some (fst b) else a) slot bs"

section \<open>Reading the outcome of an action\<close>

definition result_of :: "('e + 'a) \<times> widget list \<times> state \<Rightarrow> 'e + 'a" where
  "result_of x = fst x"

definition rendered :: "('e + 'a) \<times> widget list \<times> state \<Rightarrow> widget list" where
  "rendered x = fst (snd x)"

definition state_after :: "('e + 'a) \<times> widget list \<times> state \<Rightarrow> state" where
  "state_after x = snd (snd x)"

definition display_frame :: "state \<Rightarrow> state \<Rightarrow> bool" where
  \<comment> \<open>what rendering leaves alone: the connection, the log and the requests sent\<close>
  "display_frame s s' \<longleftrightarrow>
     CONN s' = CONN s \<and> messages s' = messages s \<and> suggestions s' = suggestions s \<and>
     posts s' = posts s"

definition request_ready :: "(string \<rightharpoonup> string) \<Rightarrow> state \<Rightarrow> bool" where
  \<comment> \<open>everything \<^verbatim>\<open>send_message\<close> reads before it calls \<^verbatim>\<open>requests.post\<close> is there\<close>
  "request_ready cfg s \<longleftrightarrow>
     cfg ''database'' \<noteq> None \<and> cfg ''schema'' \<noteq> None \<and> cfg ''stage'' \<noteq> None \<and>
     cfg ''file'' \<noteq> None \<and> cfg ''host'' \<noteq> None \<and> CONN s \<noteq> None"

definition digits_value :: "string \<Rightarrow> nat" where
  \<comment> \<open>reads a decimal numeral back\<close>
  "digits_value ds = foldl (\<lambda>a c. 10 * a + (of_char c - 48)) 0 ds"

definition button_effect :: "world \<Rightarrow> state \<Rightarrow> widget list \<Rightarrow> state \<Rightarrow> bool" where
  \<comment> \<open>how rendering \<open>out\<close> moved the registered keys and the pending suggestion\<close>
  "button_effect w s out s' \<longleftrightarrow>
     widget_keys s' = widget_keys s @ map snd (buttons out) \<and>
     active_suggestion s' = pressed_slot (clicked w) (buttons out) (active_suggestion s) \<and>
     (distinct (widget_keys s) \<longrightarrow> distinct (widget_keys s @ map snd (buttons out)))"

definition keeps :: "(state \<Rightarrow> bool) \<Rightarrow> ('e, 'a) action \<Rightarrow> bool" where
  \<comment> \<open>the action preserves a property of the state, whether it returns or raises\<close>
  "keeps I m \<longleftrightarrow> (\<forall>s r out s'. I s \<longrightarrow> m s = (r, out, s') \<longrightarrow> I s')"

definition empty_pending :: "state \<Rightarrow> bool" where
  \<comment> \<open>an initialised session whose slot holds the empty string\<close>
  "empty_pending s \<longleftrightarrow> active_suggestion s = Some [] \<and> messages s \<noteq> None"

section \<open>Content blocks, stored and rendered\<close>

text \<open>
  The three kinds of content block, as a typed view of a content item and as what can
  be read back from the widgets of a rendered turn.
\<close>

datatype block = Text json | Suggestions "string list" | Sql json



fun widget_block :: "widget \<Rightarrow> block option" where
  "widget_block (Markdown text) = Some (Text text)"
| "widget_block (Expander label expanded inner) =
     (if label = ''Suggestions'' then Some (Suggestions (map fst (buttons inner)))
      else if label = ''SQL Query'' then
        (case inner of [Code statement language] \<Rightarrow> Some (Sql statement) | _ \<Rightarrow> None)
      else None)"
| "widget_block _ = None"

definition rendered_blocks :: "widget list \<Rightarrow> block list" where
  "rendered_blocks out = List.map_filter widget_block out"

fun rendered_request_id :: "widget list \<Rightarrow> json" where
  \<comment> \<open>the request id shown in the panel at the top of a turn, \<open>JNull\<close> without panel\<close>
  "rendered_request_id (Expander label expanded [Markdown request_id] # rest) =
     (if label = ''Request ID'' then request_id else JNull)"
| "rendered_request_id _ = JNull"

fun rendered_turn :: "widget \<Rightarrow> (string \<times> json \<times> block list) option" where
  "rendered_turn (Chat_message name inner) =
     Some (name, rendered_request_id inner, rendered_blocks inner)"
| "rendered_turn _ = None"

definition rendered_turns :: "widget list \<Rightarrow> (string \<times> json \<times> block list) list" where
  "rendered_turns out = List.map_filter rendered_turn out"

section \<open>The keys of a rendered transcript\<close>

definition block_keys :: "widget \<Rightarrow> (nat \<times> string) list" where
  \<comment> \<open>the keys of the buttons of one rendered block, numbered in the order of rendering\<close>
  "block_keys wd = enumerate 0 (map snd (widget_buttons wd))"

fun transcript_keys :: "nat \<Rightarrow> widget list \<Rightarrow> ((nat \<times> nat) \<times> string) list" where
  \<comment> \<open>the chat messages of a page are its turns, numbered from \<open>k\<close>: every button of a
      turn with the number of the turn, its number within its block, and its key\<close>
  "transcript_keys k [] = []"
| "transcript_keys k (Chat_message name inner # rest) =
     map (\<lambda>e. ((k, fst e), snd e)) (concat (map block_keys inner)) @
     transcript_keys (Suc k) rest"
| "transcript_keys k (wd # rest) = transcript_keys k rest"

fun chat_count :: "widget list \<Rightarrow> nat" where
  "chat_count [] = 0"
| "chat_count (Chat_message name inner # rest) = Suc (chat_count rest)"
| "chat_count (wd # rest) = chat_count rest"

definition keyed :: "nat \<Rightarrow> widget list \<Rightarrow> bool" where
  \<comment> \<open>every button of these blocks has the key made of \<open>mi\<close> and its number in its block\<close>
  "keyed mi out \<longleftrightarrow>
     (\<forall>wd \<in> set out. \<forall>e \<in> set (block_keys wd). snd e = button_key mi (fst e))"

section \<open>A sample session\<close>

definition sample_config :: "string \<rightharpoonup> string" where
  "sample_config =
     [''user'' \<mapsto> ''analyst'', ''password'' \<mapsto> ''secret'', ''account'' \<mapsto> ''acme'',
      ''warehouse'' \<mapsto> ''wh'', ''database'' \<mapsto> ''sales'', ''schema'' \<mapsto> ''public'',
      ''role'' \<mapsto> ''reader'', ''host'' \<mapsto> ''acme.example.com'', ''stage'' \<mapsto> ''models'',
      ''file'' \<mapsto> ''revenue.yaml'']"

definition sample_response :: http_response where
  "sample_response =
     \<lparr>status_code = 200,
      response_headers = [(''x-snowflake-request-id'', ''abc-123'')],
      response_text = ''ok'',
      response_json = Inr (JObj [(''message'', JObj [(''content'',
        JArr [JObj [(''type'', JStr ''text''), (''text'', JStr ''Revenue is $5M'')]])])])\<rparr>"

definition failed_response :: http_response where
  "failed_response =
     \<lparr>status_code = 500, response_headers = [], response_text = ''Internal Server Error'',
      response_json = Inl JSONDecodeError\<rparr>"

definition sample_world :: world where
  "sample_world =
     \<lparr>secrets = [''snowflake'' \<mapsto> sample_config],
      connect = (\<lambda>args. Inr \<lparr>token = ''t0k''\<rparr>),
      post = (\<lambda>n req. Inr sample_response),
      read_sql = (\<lambda>n statement. Inl (DatabaseError ''no such table'')),
      clicked = None,
      chat_input = None\<rparr>"

definition failing_world :: world where
  "failing_world = sample_world\<lparr>post := (\<lambda>n req. Inr failed_response)\<rparr>"

definition sample_state :: state where
  "sample_state =
     \<lparr>CONN = Some \<lparr>token = ''t0k''\<rparr>, messages = Some [], suggestions = [],
      active_suggestion = None, widget_keys = [], posts = [], queries = []\<rparr>"

definition tabular_world :: world where
  \<comment> \<open>every query returns two rows of two columns\<close>
  "tabular_world =
     sample_world\<lparr>read_sql := (\<lambda>n statement. Inr
       \<lparr>nrows = 2, index = None,
        columns = [(''month'', [''Jan'', ''Feb'']), (''revenue'', [''2'', ''3''])]\<rparr>)\<rparr>"

definition duplicate_world :: world where
  \<comment> \<open>every query returns two rows of two columns that are both labelled \<open>ID\<close>\<close>
  "duplicate_world =
     sample_world\<lparr>read_sql := (\<lambda>n statement. Inr
       \<lparr>nrows = 2, index = None, columns = [(''ID'', [''1'', ''2'']), (''ID'', [''7'', ''8''])]\<rparr>)\<rparr>"

definition fresh_state :: state where
  \<comment> \<open>a session that has not run the script yet\<close>
  "fresh_state =
     \<lparr>CONN = None, messages = None, suggestions = [], active_suggestion = None,
      widget_keys = [], posts = [], queries = []\<rparr>"

definition world_without_host :: world where
  "world_without_host =
     sample_world\<lparr>secrets := [''snowflake'' \<mapsto> sample_config(''host'' := None)]\<rparr>"

definition suggesting_state :: state where
  \<comment> \<open>a session whose last answer offers two suggestions, the second one empty\<close>
  "suggesting_state =
     sample_state\<lparr>messages := Some
       [\<lparr>turn_role = ''user'',
         turn_content = JArr [JObj [(''type'', JStr ''text''), (''text'', JStr ''Hello'')]],
         turn_request_id = JNull\<rparr>,
        \<lparr>turn_role = ''assistant'',
         turn_content = JArr [JObj [(''type'', JStr ''suggestions''),
           (''suggestions'', JArr [JStr ''What is total revenue?'', JStr ''''])]],
         turn_request_id = JNull\<rparr>]\<rparr>"

definition world_clicking :: "string \<Rightarrow> world" where
  "world_clicking key = sample_world\<lparr>clicked := Some key\<rparr>"

definition query_response :: http_response where
  "query_response =
     \<lparr>status_code = 200,
      response_headers = [(''X-Snowflake-Request-Id'', ''q-1'')],
      response_text = ''ok'',
      response_json = Inr (JObj [(''message'', JObj [(''content'',
        JArr [JObj [(''type'', JStr ''sql''), (''statement'', JStr ''SELECT COUNT(*) FROM orders'')],
              JObj [(''type'', JStr ''text''), (''text'', JStr ''That many orders.'')]])])])\<rparr>"



definition unanswered_world :: "string option \<Rightarrow> world" where
  \<comment> \<open>the answer always holds an SQL block, and the database never runs it\<close>
  "unanswered_world click =
     sample_world\<lparr>post := (\<lambda>n req. Inr query_response), clicked := click\<rparr>"

definition offering_response :: http_response where
  "offering_response =
     \<lparr>status_code = 200, response_headers = [], response_text = ''ok'',
      response_json = Inr (JObj [(''message'', JObj [(''content'',
        JArr [JObj [(''type'', JStr ''suggestions''),
                    (''suggestions'', JArr [JStr ''Top products?''])]])])])\<rparr>"

definition offering_world :: world where
  \<comment> \<open>the user types a question, and the answer offers one suggestion\<close>
  "offering_world =
     sample_world\<lparr>post := (\<lambda>n req. Inr offering_response), chat_input := Some ''More''\<rparr>"

definition offering_state :: state where
  \<comment> \<open>a log whose turns 0 and 1 both offer suggestions\<close>
  "offering_state =
     sample_state\<lparr>messages := Some
       [\<lparr>turn_role = ''assistant'',
         turn_content = JArr [JObj [(''type'', JStr ''suggestions''),
           (''suggestions'', JArr [JStr ''By region?''])]],
         turn_request_id = JNull\<rparr>,
        \<lparr>turn_role = ''assistant'',
         turn_content = JArr [JObj [(''type'', JStr ''suggestions''),
           (''suggestions'', JArr [JStr ''By month?'', JStr ''By year?''])]],
         turn_request_id = JNull\<rparr>]\<rparr>"

section \<open>Rules for actions\<close>

lemma run_eq: "x = (result_of x, rendered x, state_after x)"
  by (simp add: result_of_def rendered_def state_after_def)

lemma returns_eq [simp]: "returns x s = (r, out, s') \<longleftrightarrow> r = Inr x \<and> out = [] \<and> s' = s"
  by (auto simp: returns_def)

lemma raises_eq [simp]: "raises e s = (r, out, s') \<longleftrightarrow> r = Inl e \<and> out = [] \<and> s' = s"
  by (auto simp: raises_def)

lemma from_result_eq [simp]: "from_result x s = (r, out, s') \<longleftrightarrow> x = r \<and> out = [] \<and> s' = s"
  by (auto simp: from_result_def)

lemma render_eq [simp]: "render wd s = (r, out, s') \<longleftrightarrow> r = Inr () \<and> out = [wd] \<and> s' = s"
  by (auto simp: render_def)

lemma then_doE:
  assumes "then_do m f s = (r, out, s')"
  obtains (raised) e where "m s = (Inl e, out, s')" and "r = Inl e"
  | (continued) x out1 s1 out2 where "m s = (Inr x, out1, s1)" and "f x s1 = (r, out2, s')"
      and "out = out1 @ out2"
  using assms by (auto simp: then_do_def split: prod.splits sum.splits)

lemma withinE:
  assumes "within container m s = (r, out, s')"
  obtains inner where "m s = (r, inner, s')" and "out = [container inner]"
  using assms by (auto simp: within_def split: prod.splits)

lemma uncaughtE:
  assumes "uncaught m s = (r, out, s')"
  obtains (raised) e where "m s = (Inl e, out, s')" and "r = Inl (Uncaught e)"
  | (returned) x where "m s = (Inr x, out, s')" and "r = Inr x"
  using assms by (auto simp: uncaught_def split: prod.splits sum.splits)

lemma send_message_try_frame:
  assumes "send_message_try w cfg prompt s = (r, out, s')"
  shows "s' = s\<lparr>posts := posts s'\<rparr>"
  using assms unfolding send_message_try_def
  by (auto elim!: then_doE simp: session_token_def requests_post_def Let_def
      split: option.splits if_splits json.splits)

lemma send_message_frame:
  assumes "send_message w cfg prompt s = (r, out, s')"
  shows "s' = s\<lparr>posts := posts s'\<rparr>"
  using assms send_message_try_frame unfolding send_message_def
  by (auto split: prod.splits sum.splits)


lemma display_frame_refl [simp]: "display_frame s s"
  by (simp add: display_frame_def)

lemma display_frame_trans: "display_frame s t \<Longrightarrow> display_frame t u \<Longrightarrow> display_frame s u"
  by (simp add: display_frame_def)

lemma st_button_frame: "st_button w label key s = (r, out, s') \<Longrightarrow> display_frame s s'"
  by (auto simp: st_button_def display_frame_def split: if_splits)

lemma suggestion_buttons_frame:
  "suggestion_buttons w mi si xs s = (r, out, s') \<Longrightarrow> display_frame s s'"
proof (induction xs arbitrary: si s r out s')
  case Nil
  then show ?case by simp
next
  case (Cons x xs)
  show ?case
  proof (cases x)
    case (JStr label)
    with Cons.prems show ?thesis
      by (auto elim!: then_doE simp: set_active_suggestion_def
          dest!: st_button_frame Cons.IH split: if_splits
          intro: display_frame_trans simp: display_frame_def)
  qed (use Cons.prems in auto)
qed

lemma display_item_frame:
  assumes "display_item w mi item s = (r, out, s')"
  shows "display_frame s s'"
  using assms unfolding display_item_def
  by (auto elim!: then_doE withinE
      simp: read_sql_query_def show_result_def st_dataframe_def Let_def
      dest!: suggestion_buttons_frame split: if_splits simp: display_frame_def)

lemma display_items_frame:
  "display_items w mi items s = (r, out, s') \<Longrightarrow> display_frame s s'"
proof (induction items arbitrary: s r out s')
  case Nil
  then show ?case by simp
next
  case (Cons item items)
  from Cons.prems show ?case
    by (auto elim!: then_doE dest!: display_item_frame Cons.IH intro: display_frame_trans)
qed

lemma display_content_frame:
  assumes "display_content w content request_id message_index s = (r, out, s')"
  shows "display_frame s s'"
  using assms unfolding display_content_def message_index_or_def len_messages_def
  by (auto elim!: then_doE withinE dest!: display_items_frame
      split: if_splits option.splits)

lemma display_messages_frame:
  "display_messages w i log s = (r, out, s') \<Longrightarrow> display_frame s s'"
proof (induction log arbitrary: i s r out s')
  case Nil
  then show ?case by simp
next
  case (Cons m log)
  from Cons.prems show ?case
    by (auto elim!: then_doE withinE dest!: display_content_frame Cons.IH intro: display_frame_trans)
qed

lemma send_message_messages:
  "send_message w cfg prompt s = (r, out, s') \<Longrightarrow> messages s' = messages s"
  by (drule send_message_frame) (erule ssubst, simp)

lemma process_message_log:
  assumes run: "process_message w cfg prompt s = (r, out, s')" and log: "messages s = Some log"
  shows "(\<exists>e. r = Inl e \<and> messages s' = Some (log @
            [\<lparr>turn_role = ''user'',
              turn_content = JArr [JObj [(''type'', JStr ''text''), (''text'', JStr prompt)]],
              turn_request_id = JNull\<rparr>]))
       \<or> (\<exists>c rid. r = Inr () \<and> messages s' = Some (log @
            [\<lparr>turn_role = ''user'',
              turn_content = JArr [JObj [(''type'', JStr ''text''), (''text'', JStr prompt)]],
              turn_request_id = JNull\<rparr>,
             \<lparr>turn_role = ''assistant'', turn_content = c, turn_request_id = rid\<rparr>]))"
proof -
  let ?u = "\<lparr>turn_role = ''user'',
              turn_content = JArr [JObj [(''type'', JStr ''text''), (''text'', JStr prompt)]],
              turn_request_id = JNull\<rparr>"
  let ?s1 = "s\<lparr>messages := Some (log @ [?u])\<rparr>"
  let ?body = "then_do (render (Spinner ''Generating response...'')) (\<lambda>_.
        then_do (send_message w cfg prompt) (\<lambda>response.
        then_do (from_result
                  (py_get (dict_get response ''message'' (JObj [])) ''content'' (JArr []))) (\<lambda>content.
        then_do (display_content w content (dict_get response ''request_id'' JNull) None) (\<lambda>_.
        returns (content, dict_get response ''request_id'' JNull)))))"
  have body_log: "messages t = Some (log @ [?u])" if "?body ?s1 = (rb, ob, t)" for rb ob t
    using that
    by (auto elim!: then_doE dest!: send_message_messages display_content_frame
        simp: display_frame_def)
  from run [unfolded process_message_def] show ?thesis
  proof (cases rule: then_doE)
    case (raised e)
    with log show ?thesis by (simp add: append_message_def)
  next
    case appended: (continued x out1 s1 out2)
    from appended(1) log have s1: "s1 = ?s1"
      by (simp add: append_message_def)
    from appended(2) show ?thesis
    proof (cases rule: then_doE)
      case (raised e)
      then show ?thesis by (auto elim!: withinE)
    next
      case shown: (continued y out3 s2 out4)
      from shown(1) s1 have s2: "s2 = ?s1"
        by (auto elim!: withinE)
      from shown(2) show ?thesis
      proof (cases rule: then_doE)
        case (raised e)
        with s2 show ?thesis by (auto elim!: withinE dest!: body_log)
      next
        case answered: (continued z out5 s3 out6)
        from answered(1) s2 have "messages s3 = Some (log @ [?u])"
          by (auto elim!: withinE dest!: body_log)
        with answered(2) show ?thesis
          by (cases z) (auto simp: append_message_def)
      qed
    qed
  qed
qed


lemma send_message_try_messages_update:
  "send_message_try w cfg prompt (s\<lparr>messages := m\<rparr>) =
     (case send_message_try w cfg prompt s of (r, out, s') \<Rightarrow> (r, out, s'\<lparr>messages := m\<rparr>))"
  unfolding send_message_try_def
  by (simp add: then_do_def from_result_def session_token_def requests_post_def Let_def
      render_def returns_def raises_def
      split: sum.splits option.splits json.splits)

lemma send_message_messages_update:
  "send_message w cfg prompt (s\<lparr>messages := m\<rparr>) =
     (case send_message w cfg prompt s of (r, out, s') \<Rightarrow> (r, out, s'\<lparr>messages := m\<rparr>))"
  unfolding send_message_def send_message_try_messages_update
  by (simp split: prod.splits sum.splits)

lemma display_content_empty:
  "messages s \<noteq> None \<Longrightarrow> display_content w (JArr []) JNull None s = (Inr (), [], s)"
  by (auto simp: display_content_def message_index_or_def len_messages_def then_do_def
      returns_def from_result_def)

lemma semantic_model_file_cases:
  "(\<exists>e. semantic_model_file cfg = Inl e \<and>
      (cfg ''database'' = None \<or> cfg ''schema'' = None \<or> cfg ''stage'' = None \<or> cfg ''file'' = None))
   \<or> (\<exists>database schema stage file.
         cfg ''database'' = Some database \<and> cfg ''schema'' = Some schema \<and>
         cfg ''stage'' = Some stage \<and> cfg ''file'' = Some file \<and>
         semantic_model_file cfg =
           Inr (''@'' @ database @ ''.'' @ schema @ ''.'' @ stage @ ''/'' @ file))"
  by (cases "cfg ''database''"; cases "cfg ''schema''"; cases "cfg ''stage''"; cases "cfg ''file''")
    (simp_all add: semantic_model_file_def and_then_def config_get_def)

lemma send_message_try_not_ready:
  assumes "\<not> request_ready cfg s"
  shows "\<exists>e. send_message_try w cfg prompt s = (Inl e, [], s)"
proof -
  consider (model) e where "semantic_model_file cfg = Inl e"
    | (host) mf where "semantic_model_file cfg = Inr mf" and "cfg ''host'' = None"
    | (conn) mf h where "semantic_model_file cfg = Inr mf" and "cfg ''host'' = Some h"
        and "CONN s = None"
    using assms semantic_model_file_cases [of cfg]
    by (fastforce simp: request_ready_def)
  then show ?thesis
  proof cases
    case model
    then show ?thesis
      by (simp add: send_message_try_def then_do_def from_result_def)
  next
    case host
    then show ?thesis
      by (simp add: send_message_try_def then_do_def from_result_def config_get_def)
  next
    case conn
    then show ?thesis
      by (simp add: send_message_try_def then_do_def from_result_def config_get_def
          session_token_def)
  qed
qed


lemma send_message_try_ready:
  assumes "cfg ''database'' = Some database" and "cfg ''schema'' = Some schema"
    and "cfg ''stage'' = Some stage" and "cfg ''file'' = Some file"
    and "cfg ''host'' = Some host" and "CONN s = Some conn"
  shows "send_message_try w cfg prompt s =
    (let req = \<lparr>http_method = ''POST'',
        url = ''https://'' @ host @ ''/api/v2/cortex/analyst/message'',
        body = JObj
          [(''messages'',
            JArr [JObj [(''role'', JStr ''user''),
                        (''content'', JArr [JObj [(''type'', JStr ''text''), (''text'', JStr prompt)]])]]),
           (''semantic_model_file'',
            JStr (''@'' @ database @ ''.'' @ schema @ ''.'' @ stage @ ''/'' @ file))],
        headers =
          [(''Authorization'', ''Snowflake Token='' @ [CHR 0x22] @ token conn @ [CHR 0x22]),
           (''Content-Type'', ''application/json'')]\<rparr>;
         s' = s\<lparr>posts := posts s @ [req]\<rparr>
     in case post w (length (posts s)) req of
          Inl e \<Rightarrow> (Inl e, [], s')
        | Inr resp \<Rightarrow>
            if status_code resp < 400 then
              (case response_json resp of
                 Inl e \<Rightarrow> (Inl e, [], s')
               | Inr (JObj kvs) \<Rightarrow>
                   (Inr (AList.update ''request_id'' (case headers_get (response_headers resp) ''X-Snowflake-Request-Id'' of
                        None \<Rightarrow> JNull | Some v \<Rightarrow> JStr v) kvs), [], s')
               | Inr _ \<Rightarrow> (Inl TypeError, [], s'))
            else (Inr [], [Error_box (Request_failed (status_code resp) (response_text resp))], s'))"
proof -
  have model: "semantic_model_file cfg =
      Inr (''@'' @ database @ ''.'' @ schema @ ''.'' @ stage @ ''/'' @ file)"
    using assms by (simp add: semantic_model_file_def and_then_def config_get_def)
  have host: "config_get cfg ''host'' = Inr host"
    using assms by (simp add: config_get_def)
  have tok: "session_token s = (Inr (token conn), [], s)"
    using assms by (simp add: session_token_def)
  show ?thesis
    unfolding send_message_try_def
    by (simp add: then_do_def from_result_def model host tok requests_post_def Let_def
        render_def returns_def raises_def
        split: sum.splits json.splits)
qed


section \<open>Reading the sample answers\<close>

lemma sample_response_fields:
  "status_code sample_response = 200"
  "response_json sample_response = Inr (JObj [(''message'', JObj [(''content'',
        JArr [JObj [(''type'', JStr ''text''), (''text'', JStr ''Revenue is $5M'')]])])])"
  "headers_get (response_headers sample_response) ''X-Snowflake-Request-Id'' = Some ''abc-123''"
  by (simp_all add: sample_response_def) code_simp


section \<open>Widget keys\<close>

lemma str_nat_small: "n < 10 \<Longrightarrow> str_nat n = [char_of (48 + n)]"
  by (subst str_nat.simps) simp

lemma str_nat_large: "\<not> n < 10 \<Longrightarrow> str_nat n = str_nat (n div 10) @ [char_of (48 + n mod 10)]"
  by (subst str_nat.simps) simp

lemma digits_value_str_nat: "digits_value (str_nat n) = n"
proof (induction n rule: str_nat.induct)
  case (1 n)
  show ?case
  proof (cases "n < 10")
    case True
    then show ?thesis by (simp add: digits_value_def str_nat_small)
  next
    case False
    then have "digits_value (str_nat (n div 10)) = n div 10"
      using 1 by simp
    moreover have "str_nat n = str_nat (n div 10) @ [char_of (48 + n mod 10)]"
      using False by (rule str_nat_large)
    ultimately show ?thesis
      by (simp add: digits_value_def)
  qed
qed

lemma str_nat_inject: "str_nat m = str_nat n \<Longrightarrow> m = n"
  by (metis digits_value_str_nat)

lemma digit_not_underscore: "d < 10 \<Longrightarrow> char_of (48 + d :: nat) \<noteq> CHR ''_''"
proof
  assume "d < 10" and "char_of (48 + d) = CHR ''_''"
  then have "of_char (char_of (48 + d)) = (of_char CHR ''_'' :: nat)"
    by simp
  with \<open>d < 10\<close> show False by simp
qed

lemma underscore_not_in_str_nat: "CHR ''_'' \<notin> set (str_nat n)"
proof (induction n rule: str_nat.induct)
  case (1 n)
  show ?case
  proof (cases "n < 10")
    case True
    then show ?thesis using digit_not_underscore [of n] by (simp add: str_nat_small)
  next
    case False
    then have "str_nat n = str_nat (n div 10) @ [char_of (48 + n mod 10)]"
      by (rule str_nat_large)
    moreover have "char_of (48 + n mod 10) \<noteq> CHR ''_''"
      by (rule digit_not_underscore) simp
    ultimately show ?thesis using 1 False by auto
  qed
qed

lemma button_key_inject:
  assumes "button_key i j = button_key i' j'"
  shows "i = i' \<and> j = j'"
proof -
  let ?P = "\<lambda>c. c \<noteq> CHR ''_''"
  have digits: "?P c" if "c \<in> set (str_nat a)" for c a
    using that underscore_not_in_str_nat [of a] by auto
  have split: "takeWhile ?P (button_key a b) = str_nat a \<and>
      dropWhile ?P (button_key a b) = CHR ''_'' # str_nat b" for a b
    by (simp add: button_key_def takeWhile_append2 dropWhile_append2 digits)
  from assms split [of i j] split [of i' j'] have "str_nat i = str_nat i'" and "str_nat j = str_nat j'"
    by simp_all
  then show ?thesis by (simp add: str_nat_inject)
qed

section \<open>Buttons, keys and the pending suggestion\<close>

lemma buttons_simps [simp]:
  "buttons [] = []"
  "buttons (out1 @ out2) = buttons out1 @ buttons out2"
  "buttons [Expander label expanded inner] = buttons inner"
  "buttons [Chat_message name inner] = buttons inner"
  "buttons [Button label key] = [(label, key)]"
  by (simp_all add: buttons_def)


lemma pressed_slot_simps [simp]:
  "pressed_slot click [] slot = slot"
  "pressed_slot click (bs @ cs) slot = pressed_slot click cs (pressed_slot click bs slot)"
  "pressed_slot click [(label, key)] slot = (if click = Some key then Some label else slot)"
  by (simp_all add: pressed_slot_def)

lemma pressed_slot_None [simp]: "pressed_slot None bs slot = slot"
  by (induction bs arbitrary: slot) (simp_all add: pressed_slot_def)

lemma pressed_slot_other:
  "click \<notin> Some ` snd ` set bs \<Longrightarrow> pressed_slot click bs slot = slot"
  by (induction bs arbitrary: slot) (auto simp: pressed_slot_def)

lemma pressed_slot_unique:
  assumes "(label, key) \<in> set bs" and "distinct (map snd bs)"
  shows "pressed_slot (Some key) bs slot = Some label"
  using assms
proof (induction bs arbitrary: slot)
  case Nil
  then show ?case by simp
next
  case (Cons b bs)
  show ?case
  proof (cases "b = (label, key)")
    case True
    with Cons.prems(2) have "Some key \<notin> Some ` snd ` set bs"
      by auto
    from pressed_slot_other [OF this] True show ?thesis
      by (simp add: pressed_slot_def)
  next
    case False
    with Cons.prems have "(label, key) \<in> set bs" and "distinct (map snd bs)"
      by auto
    from Cons.IH [OF this] show ?thesis
      by (simp add: pressed_slot_def)
  qed
qed

lemma button_effect_unchanged:
  "buttons out = [] \<Longrightarrow> widget_keys s' = widget_keys s \<Longrightarrow>
   active_suggestion s' = active_suggestion s \<Longrightarrow> button_effect w s out s'"
  by (simp add: button_effect_def)

lemma button_effect_refl [simp]: "button_effect w s [] s"
  by (simp add: button_effect_unchanged)

lemma button_effect_trans:
  assumes "button_effect w s out1 s1" and "button_effect w s1 out2 s2"
  shows "button_effect w s (out1 @ out2) s2"
proof -
  from assms have keys: "widget_keys s2 = widget_keys s @ map snd (buttons (out1 @ out2))"
    and slot: "active_suggestion s2 =
      pressed_slot (clicked w) (buttons (out1 @ out2)) (active_suggestion s)"
    by (simp_all add: button_effect_def)
  have "distinct (widget_keys s @ map snd (buttons (out1 @ out2)))" if "distinct (widget_keys s)"
  proof -
    from that assms(1) have "distinct (widget_keys s1)"
      by (simp add: button_effect_def)
    with assms have "distinct (widget_keys s2)"
      by (simp add: button_effect_def)
    with keys show ?thesis by simp
  qed
  with keys slot show ?thesis
    unfolding button_effect_def by blast
qed

lemma button_effect_Expander:
  "button_effect w s inner s' \<Longrightarrow> button_effect w s [Expander label expanded inner] s'"
  by (simp add: button_effect_def)

lemma button_effect_Chat_message:
  "button_effect w s inner s' \<Longrightarrow> button_effect w s [Chat_message name inner] s'"
  by (simp add: button_effect_def)

lemma button_effect_plain:
  "widget_buttons wd = [] \<Longrightarrow> button_effect w s [wd] s"
  by (simp add: button_effect_unchanged buttons_def)

lemma then_do_button_effect:
  assumes "then_do m f s = (r, out, s')"
    and "\<And>r out s'. m s = (r, out, s') \<Longrightarrow> button_effect w s out s'"
    and "\<And>x s1 r out s'. f x s1 = (r, out, s') \<Longrightarrow> button_effect w s1 out s'"
  shows "button_effect w s out s'"
  using assms(1)
proof (cases rule: then_doE)
  case (raised e)
  from raised(1) show ?thesis by (rule assms(2))
next
  case (continued x out1 s1 out2)
  from assms(2) [OF continued(1)] assms(3) [OF continued(2)] continued(3) show ?thesis
    by (simp add: button_effect_trans)
qed

lemma st_button_raised:
  assumes "st_button w label key s = (Inl e, out, s')"
  shows "out = [] \<and> s' = s"
  using assms by (auto simp: st_button_def split: if_splits)

lemma st_button_pressed:
  assumes "st_button w label key s = (Inr pressed, out, s')"
  shows "out = [Button label key] \<and> pressed = (clicked w = Some key) \<and>
         s' = s\<lparr>widget_keys := widget_keys s @ [key]\<rparr> \<and> key \<notin> set (widget_keys s)"
  using assms by (auto simp: st_button_def split: if_splits)

lemma suggestion_buttons_effect:
  "suggestion_buttons w mi si xs s = (r, out, s') \<Longrightarrow> button_effect w s out s'"
proof (induction xs arbitrary: si s r out s')
  case Nil
  then show ?case by simp
next
  case (Cons x xs)
  show ?case
  proof (cases x)
    case (JStr label)
    with Cons.prems have run: "then_do (st_button w label (button_key mi si)) (\<lambda>pressed.
          then_do (if pressed then set_active_suggestion (Some label) else returns ()) (\<lambda>_.
          suggestion_buttons w mi (Suc si) xs)) s = (r, out, s')"
      by simp
    from run show ?thesis
    proof (cases rule: then_doE)
      case (raised e)
      from st_button_raised [OF raised(1)] show ?thesis by simp
    next
      case (continued pressed out1 s1 out2)
      note pressed = st_button_pressed [OF continued(1)]
      let ?s2 = "if pressed then s1\<lparr>active_suggestion := Some label\<rparr> else s1"
      from continued(2) have rest: "suggestion_buttons w mi (Suc si) xs ?s2 = (r, out2, s')"
        by (auto elim!: then_doE simp: set_active_suggestion_def split: if_splits)
      have "button_effect w s out1 ?s2"
        using pressed by (simp add: button_effect_def)
      from button_effect_trans [OF this Cons.IH [OF rest]] continued(3) show ?thesis
        by simp
    qed
  qed (use Cons.prems in auto)
qed

lemma display_item_effect:
  assumes "display_item w mi item s = (r, out, s')"
  shows "button_effect w s out s'"
proof -
  have sql: "buttons out = [] \<and> widget_keys s' = widget_keys s \<and>
      active_suggestion s' = active_suggestion s"
    if "then_do (within (Expander ''SQL Query'' False)
                 (then_do (from_result (py_getitem item ''statement'')) (\<lambda>statement.
                  render (Code statement ''sql'')))) (\<lambda>_.
       within (Expander ''Results'' True)
         (then_do (render (Spinner ''Running SQL...'')) (\<lambda>_.
          then_do (from_result (py_getitem item ''statement'')) (\<lambda>statement.
          then_do (read_sql_query w statement) (\<lambda>df.
          show_result df))))) s = (r, out, s')"
    using that
    by (auto elim!: then_doE withinE
        simp: read_sql_query_def show_result_def st_dataframe_def Let_def buttons_def
        split: if_splits)
  from assms show ?thesis
    unfolding display_item_def
  proof (cases rule: then_doE)
    case (raised e)
    then show ?thesis by simp
  next
    case (continued ty out1 s1 out2)
    then have start: "out1 = []" "s1 = s" "out = out2"
      by simp_all
    consider (plain) "ty = JStr ''text''" | (suggested) "ty = JStr ''suggestions''"
      | (query) "ty = JStr ''sql''"
      | (other) "ty \<noteq> JStr ''text''" "ty \<noteq> JStr ''suggestions''" "ty \<noteq> JStr ''sql''"
      by blast
    then show ?thesis
    proof cases
      case plain
      with continued(2) start show ?thesis
        by (auto elim!: then_doE intro!: button_effect_unchanged simp: buttons_def)
    next
      case suggested
      with continued(2) start show ?thesis
        by (auto elim!: then_doE withinE intro!: button_effect_Expander
            dest: suggestion_buttons_effect)
    next
      case query
      with continued(2) start sql show ?thesis
        by (simp add: button_effect_unchanged)
    next
      case other
      with continued(2) start show ?thesis
        by simp
    qed
  qed
qed

lemma display_items_effect:
  "display_items w mi items s = (r, out, s') \<Longrightarrow> button_effect w s out s'"
proof (induction items arbitrary: s r out s')
  case Nil
  then show ?case by simp
next
  case (Cons item items)
  from Cons.prems show ?case
    by (auto elim!: then_do_button_effect dest: display_item_effect Cons.IH)
qed

lemma display_content_effect:
  assumes "display_content w content request_id message_index s = (r, out, s')"
  shows "button_effect w s out s'"
  using assms unfolding display_content_def
proof (cases rule: then_doE)
  case (raised e)
  then show ?thesis
    by (auto simp: message_index_or_def len_messages_def split: option.splits if_splits)
next
  case first: (continued mi out1 s1 out2)
  then have start: "out1 = []" "s1 = s"
    by (auto simp: message_index_or_def len_messages_def split: option.splits if_splits)
  from first(2) have "button_effect w s1 out2 s'"
  proof (rule then_do_button_effect)
    fix r out s'
    assume "(if truthy request_id
             then within (Expander ''Request ID'' False) (render (Markdown request_id))
             else returns ()) s1 = (r, out, s')"
    then show "button_effect w s1 out s'"
      by (auto elim!: withinE intro!: button_effect_unchanged simp: buttons_def
          split: if_splits)
  next
    fix x t r out s'
    assume "then_do (from_result (py_iter content)) (display_items w mi) t = (r, out, s')"
    then show "button_effect w t out s'"
      by (auto elim!: then_doE dest: display_items_effect)
  qed
  with start first(3) show ?thesis by simp
qed

lemma display_messages_effect:
  "display_messages w i log s = (r, out, s') \<Longrightarrow> button_effect w s out s'"
proof (induction log arbitrary: i s r out s')
  case Nil
  then show ?case by simp
next
  case (Cons m log)
  from Cons.prems show ?case
    by (auto elim!: then_do_button_effect withinE
        dest: Cons.IH display_content_effect intro: button_effect_Chat_message)
qed

lemma display_existing_messages_effect:
  assumes "display_existing_messages w s = (r, out, s')"
  shows "button_effect w s out s'"
  using assms
  by (auto simp: display_existing_messages_def split: option.splits
      dest: display_messages_effect)

section \<open>What one call of \<^verbatim>\<open>process_message\<close> does besides the log\<close>

lemma send_message_cases:
  assumes "send_message w cfg prompt s = (r, out, s')"
  shows "(\<exists>reply. r = Inr reply) \<and> buttons out = [] \<and>
         (s' = s \<or> (\<exists>req. s' = s\<lparr>posts := posts s @ [req]\<rparr>))"
proof (cases "request_ready cfg s")
  case False
  from send_message_try_not_ready [OF False] obtain e
    where "send_message_try w cfg prompt s = (Inl e, [], s)"
    by blast
  with assms show ?thesis
    by (auto simp: send_message_def buttons_def)
next
  case True
  then obtain database schema stage model host conn
    where "cfg ''database'' = Some database" and "cfg ''schema'' = Some schema"
      and "cfg ''stage'' = Some stage" and "cfg ''file'' = Some model"
      and "cfg ''host'' = Some host" and "CONN s = Some conn"
    by (auto simp: request_ready_def)
  note tried = send_message_try_ready [OF this, of w prompt]
  from assms show ?thesis
    unfolding send_message_def tried
    by (auto simp: Let_def buttons_def split: sum.splits json.splits if_splits)
qed

lemma send_message_effect:
  assumes "send_message w cfg prompt s = (r, out, s')"
  shows "button_effect w s out s'"
  using send_message_cases [OF assms]
  by (auto intro!: button_effect_unchanged)

lemma append_message_effect:
  assumes "append_message t s = (r, out, s')"
  shows "button_effect w s out s'"
  using assms
  by (auto simp: append_message_def split: option.splits intro!: button_effect_unchanged)

lemma process_message_effect:
  assumes "process_message w cfg prompt s = (r, out, s')"
  shows "button_effect w s out s'"
  using assms unfolding process_message_def
proof (rule then_do_button_effect)
  fix r out s1 s'
  assume "append_message
       \<lparr>turn_role = ''user'',
        turn_content = JArr [JObj [(''type'', JStr ''text''), (''text'', JStr prompt)]],
        turn_request_id = JNull\<rparr> s = (r, out, s')"
  then show "button_effect w s out s'"
    by (rule append_message_effect)
next
  fix x s1 r out s'
  assume "then_do (within (Chat_message ''user'') (render (Markdown (JStr prompt)))) (\<lambda>_.
     then_do (within (Chat_message ''assistant'')
       (then_do (render (Spinner ''Generating response...'')) (\<lambda>_.
        then_do (send_message w cfg prompt) (\<lambda>response.
        then_do (from_result
                  (py_get (dict_get response ''message'' (JObj [])) ''content'' (JArr []))) (\<lambda>content.
        then_do (display_content w content (dict_get response ''request_id'' JNull) None) (\<lambda>_.
        returns (content, dict_get response ''request_id'' JNull))))))) (\<lambda>(content, request_id).
     append_message
       \<lparr>turn_role = ''assistant'', turn_content = content, turn_request_id = request_id\<rparr>)) s1
     = (r, out, s')"
  then show "button_effect w s1 out s'"
  proof (rule then_do_button_effect)
    fix r out s'
    assume "within (Chat_message ''user'') (render (Markdown (JStr prompt))) s1 = (r, out, s')"
    then show "button_effect w s1 out s'"
      by (auto elim!: withinE intro!: button_effect_unchanged simp: buttons_def)
  next
    fix x s2 r out s'
    assume "then_do (within (Chat_message ''assistant'')
       (then_do (render (Spinner ''Generating response...'')) (\<lambda>_.
        then_do (send_message w cfg prompt) (\<lambda>response.
        then_do (from_result
                  (py_get (dict_get response ''message'' (JObj [])) ''content'' (JArr []))) (\<lambda>content.
        then_do (display_content w content (dict_get response ''request_id'' JNull) None) (\<lambda>_.
        returns (content, dict_get response ''request_id'' JNull))))))) (\<lambda>(content, request_id).
     append_message
       \<lparr>turn_role = ''assistant'', turn_content = content, turn_request_id = request_id\<rparr>) s2
     = (r, out, s')"
    then show "button_effect w s2 out s'"
    proof (rule then_do_button_effect)
      fix r out s'
      assume "within (Chat_message ''assistant'')
       (then_do (render (Spinner ''Generating response...'')) (\<lambda>_.
        then_do (send_message w cfg prompt) (\<lambda>response.
        then_do (from_result
                  (py_get (dict_get response ''message'' (JObj [])) ''content'' (JArr []))) (\<lambda>content.
        then_do (display_content w content (dict_get response ''request_id'' JNull) None) (\<lambda>_.
        returns (content, dict_get response ''request_id'' JNull)))))) s2 = (r, out, s')"
      then show "button_effect w s2 out s'"
        by (elim withinE, simp, intro button_effect_Chat_message)
          (auto elim!: then_do_button_effect
            dest: send_message_effect display_content_effect
            intro!: button_effect_plain)
    next
      fix x s3 r out s'
      assume "(case x of (content, request_id) \<Rightarrow> append_message
          \<lparr>turn_role = ''assistant'', turn_content = content, turn_request_id = request_id\<rparr>) s3
        = (r, out, s')"
      then show "button_effect w s3 out s'"
        by (cases x) (auto dest: append_message_effect)
    qed
  qed
qed

lemma process_message_posts:
  assumes "process_message w cfg prompt s = (r, out, s')"
  shows "posts s' = posts s \<or> (\<exists>req. posts s' = posts s @ [req])"
proof -
  have append: "posts t' = posts t" if "append_message m t = (r, out, t')" for m t r out t'
    using that by (auto simp: append_message_def split: option.splits)
  have sent: "posts t' = posts t \<or> (\<exists>req. posts t' = posts t @ [req])"
    if "send_message w cfg prompt t = (r, out, t')" for t r out t'
    using send_message_cases [OF that] by auto
  have shown: "posts t' = posts t"
    if "display_content w c rid mi t = (r, out, t')" for c rid mi t r out t'
    using display_content_frame [OF that] by (simp add: display_frame_def)
  from assms show ?thesis
    unfolding process_message_def
    by (elim then_doE withinE; clarsimp split: prod.splits)
      (auto dest!: append sent shown)
qed

section \<open>The message log\<close>

text \<open>
  C1. For every prompt, one call of \<^verbatim>\<open>process_message\<close> on an initialised session
  appends exactly one user turn (role \<open>user\<close>, content a single text block holding the
  prompt) and after it at most one assistant turn; nothing else in the log changes.
  The assistant turn is missing exactly when the call raised before its last line.
\<close>

theorem process_message_appends:
  assumes "messages s = Some log"
  shows "\<exists>assistant.
           messages (state_after (process_message w cfg prompt s)) = Some (log @
             [\<lparr>turn_role = ''user'',
               turn_content = JArr [JObj [(''type'', JStr ''text''), (''text'', JStr prompt)]],
               turn_request_id = JNull\<rparr>] @ assistant) \<and>
           (assistant = [] \<or>
            (\<exists>c rid. assistant =
               [\<lparr>turn_role = ''assistant'', turn_content = c, turn_request_id = rid\<rparr>])) \<and>
           (assistant = [] \<longleftrightarrow> (\<exists>e. result_of (process_message w cfg prompt s) = Inl e))"
  using process_message_log [OF run_eq assms, of w cfg prompt]
  by auto

theorem process_message_appends_witness:
  "messages sample_state = Some [] \<and>
   (\<exists>assistant.
      messages (state_after (process_message sample_world sample_config ''What is total revenue?''
        sample_state)) = Some ([] @
          [\<lparr>turn_role = ''user'',
            turn_content =
              JArr [JObj [(''type'', JStr ''text''), (''text'', JStr ''What is total revenue?'')]],
            turn_request_id = JNull\<rparr>] @ assistant) \<and>
      (assistant = [] \<or>
       (\<exists>c rid. assistant =
          [\<lparr>turn_role = ''assistant'', turn_content = c, turn_request_id = rid\<rparr>])))"
proof -
  have log: "messages sample_state = Some []"
    by (simp add: sample_state_def)
  from log process_message_appends [OF log] show ?thesis
    by blast
qed

text \<open>
  C3. If \<^verbatim>\<open>send_message\<close> returns the empty reply \<^verbatim>\<open>{}\<close>, \<^verbatim>\<open>process_message\<close>
  finishes, and the log has grown by exactly two turns: the user turn and an assistant
  turn with an empty content list and no request id.
\<close>

theorem empty_reply_turn:
  assumes log: "messages s = Some log"
    and reply: "result_of (send_message w cfg prompt s) = Inr []"
  shows "result_of (process_message w cfg prompt s) = Inr () \<and>
         messages (state_after (process_message w cfg prompt s)) = Some (log @
           [\<lparr>turn_role = ''user'',
             turn_content = JArr [JObj [(''type'', JStr ''text''), (''text'', JStr prompt)]],
             turn_request_id = JNull\<rparr>,
            \<lparr>turn_role = ''assistant'', turn_content = JArr [], turn_request_id = JNull\<rparr>])"
proof -
  let ?u = "\<lparr>turn_role = ''user'',
              turn_content = JArr [JObj [(''type'', JStr ''text''), (''text'', JStr prompt)]],
              turn_request_id = JNull\<rparr>"
  let ?s1 = "s\<lparr>messages := Some (log @ [?u])\<rparr>"
  obtain out1 t where sent: "send_message w cfg prompt ?s1 = (Inr [], out1, t)"
    using reply
    by (cases "send_message w cfg prompt s")
      (simp add: send_message_messages_update result_of_def)
  from send_message_messages [OF sent] have t: "messages t = Some (log @ [?u])"
    by simp
  then have shown: "display_content w (JArr []) JNull None t = (Inr (), [], t)"
    by (simp add: display_content_empty)
  from log sent shown t show ?thesis
    unfolding process_message_def
    by (simp add: then_do_def within_def append_message_def render_def from_result_def
        returns_def dict_get_def result_of_def state_after_def)
qed


lemma sample_config_values:
  "sample_config ''database'' = Some ''sales''" "sample_config ''schema'' = Some ''public''"
  "sample_config ''stage'' = Some ''models''" "sample_config ''file'' = Some ''revenue.yaml''"
  "sample_config ''host'' = Some ''acme.example.com''"
  by (simp_all add: sample_config_def)

lemma sample_state_CONN: "CONN sample_state = Some \<lparr>token = ''t0k''\<rparr>"
  by (simp add: sample_state_def)

lemmas sample_try = send_message_try_ready [OF sample_config_values sample_state_CONN]

lemma failing_world_reply:
  "result_of (send_message failing_world sample_config prompt sample_state) = Inr []"
  by (simp add: send_message_def sample_try Let_def failing_world_def sample_world_def
      failed_response_def result_of_def)

theorem empty_reply_turn_witness:
  "messages sample_state = Some [] \<and>
   result_of (send_message failing_world sample_config ''What is total revenue?'' sample_state) = Inr [] \<and>
   result_of (process_message failing_world sample_config ''What is total revenue?'' sample_state) = Inr () \<and>
   messages (state_after (process_message failing_world sample_config ''What is total revenue?''
     sample_state)) = Some
      [\<lparr>turn_role = ''user'',
        turn_content =
          JArr [JObj [(''type'', JStr ''text''), (''text'', JStr ''What is total revenue?'')]],
        turn_request_id = JNull\<rparr>,
       \<lparr>turn_role = ''assistant'', turn_content = JArr [], turn_request_id = JNull\<rparr>]"
proof -
  have log: "messages sample_state = Some []"
    by (simp add: sample_state_def)
  from log failing_world_reply empty_reply_turn [OF log failing_world_reply] show ?thesis
    by simp
qed

section \<open>The REST call\<close>

text \<open>
  C7. For every prompt \<open>p\<close>, with the five keys in the config and a connection in the
  session, \<^verbatim>\<open>send_message\<close> sends exactly one request: a POST to
  \<^verbatim>\<open>https://{host}/api/v2/cortex/analyst/message\<close> whose JSON body is
  \<^verbatim>\<open>{"messages": [{"role": "user", "content": [{"type": "text", "text": p}]}],
  "semantic_model_file": m}\<close>, where \<open>m\<close> is an at sign followed by
  \<^verbatim>\<open>{database}.{schema}.{stage}/{file}\<close> filled in from the config, and whose
  Authorization header carries the token of the current connection.
\<close>

theorem send_message_request:
  assumes "cfg ''database'' = Some database" and "cfg ''schema'' = Some schema"
    and "cfg ''stage'' = Some stage" and "cfg ''file'' = Some file"
    and "cfg ''host'' = Some host" and "CONN s = Some conn"
  shows "posts (state_after (send_message w cfg p s)) = posts s @
    [\<lparr>http_method = ''POST'',
      url = ''https://'' @ host @ ''/api/v2/cortex/analyst/message'',
      body = JObj
        [(''messages'',
          JArr [JObj [(''role'', JStr ''user''),
                      (''content'', JArr [JObj [(''type'', JStr ''text''), (''text'', JStr p)]])]]),
         (''semantic_model_file'',
          JStr (''@'' @ database @ ''.'' @ schema @ ''.'' @ stage @ ''/'' @ file))],
      headers =
        [(''Authorization'', ''Snowflake Token='' @ [CHR 0x22] @ token conn @ [CHR 0x22]),
         (''Content-Type'', ''application/json'')]\<rparr>]"
  unfolding send_message_def send_message_try_ready [OF assms]
  by (simp add: Let_def state_after_def split: sum.splits json.splits)

theorem send_message_request_witness:
  "posts (state_after (send_message sample_world sample_config ''What is total revenue?''
     sample_state)) =
    [\<lparr>http_method = ''POST'',
      url = ''https://acme.example.com/api/v2/cortex/analyst/message'',
      body = JObj
        [(''messages'',
          JArr [JObj [(''role'', JStr ''user''),
                      (''content'',
                       JArr [JObj [(''type'', JStr ''text''),
                                   (''text'', JStr ''What is total revenue?'')]])]]),
         (''semantic_model_file'', JStr ''@sales.public.models/revenue.yaml'')],
      headers =
        [(''Authorization'', ''Snowflake Token='' @ [CHR 0x22] @ ''t0k'' @ [CHR 0x22]),
         (''Content-Type'', ''application/json'')]\<rparr>]"
  using send_message_request [OF sample_config_values sample_state_CONN,
      of sample_world "''What is total revenue?''"]
  by (simp add: sample_state_def)

text \<open>
  C2, as the code has it. \<^verbatim>\<open>send_message\<close> never raises. It makes one HTTP attempt when
  the config holds database, schema, stage, file and host and the session holds a
  connection, and none otherwise: a missing key is a KeyError raised before the request
  and caught like every other exception. When the answer has a status below 400 and a
  body that parses to a JSON object, the reply is that object with \<open>request_id\<close> set
  from the \<^verbatim>\<open>X-Snowflake-Request-Id\<close> header, whose name is matched without regard to
  case, as the headers of a response are; in every other case it is \<^verbatim>\<open>{}\<close>.
\<close>

theorem send_message_outcome:
  "(\<exists>reply. result_of (send_message w cfg prompt s) = Inr reply) \<and>
   (request_ready cfg s \<longrightarrow>
      (\<exists>req. posts (state_after (send_message w cfg prompt s)) = posts s @ [req])) \<and>
   (\<not> request_ready cfg s \<longrightarrow>
      posts (state_after (send_message w cfg prompt s)) = posts s) \<and>
   (\<forall>req resp kvs.
      posts (state_after (send_message w cfg prompt s)) = posts s @ [req] \<and>
      post w (length (posts s)) req = Inr resp \<and> status_code resp < 400 \<and>
      response_json resp = Inr (JObj kvs) \<longrightarrow>
      result_of (send_message w cfg prompt s) =
        Inr (AList.update ''request_id''
          (case headers_get (response_headers resp) ''X-Snowflake-Request-Id'' of
             None \<Rightarrow> JNull
           | Some v \<Rightarrow> JStr v) kvs)) \<and>
   (result_of (send_message w cfg prompt s) = Inr [] \<longleftrightarrow>
      \<not> (\<exists>req resp kvs.
           posts (state_after (send_message w cfg prompt s)) = posts s @ [req] \<and>
           post w (length (posts s)) req = Inr resp \<and> status_code resp < 400 \<and>
           response_json resp = Inr (JObj kvs)))"
proof (cases "request_ready cfg s")
  case False
  from send_message_try_not_ready [OF False] obtain e
    where "send_message_try w cfg prompt s = (Inl e, [], s)"
    by blast
  then have "send_message w cfg prompt s = (Inr [], [Error_box (Send_failed e)], s)"
    by (simp add: send_message_def)
  with False show ?thesis
    by (simp add: result_of_def state_after_def)
next
  case True
  then obtain database schema stage model host conn
    where "cfg ''database'' = Some database" and "cfg ''schema'' = Some schema"
      and "cfg ''stage'' = Some stage" and "cfg ''file'' = Some model"
      and "cfg ''host'' = Some host" and "CONN s = Some conn"
    by (auto simp: request_ready_def)
  note tried = send_message_try_ready [OF this, of w prompt]
  show ?thesis
    using True unfolding send_message_def tried
    by (auto simp: Let_def result_of_def state_after_def split: sum.splits json.splits)
qed

theorem send_message_outcome_witness:
  "request_ready sample_config sample_state \<and>
   result_of (send_message sample_world sample_config ''What is total revenue?'' sample_state) =
     Inr [(''message'', JObj [(''content'',
             JArr [JObj [(''type'', JStr ''text''), (''text'', JStr ''Revenue is $5M'')]])]),
          (''request_id'', JStr ''abc-123'')]"
proof -
  have ready: "request_ready sample_config sample_state"
    by (simp add: request_ready_def sample_config_def sample_state_def)
  have resp: "post sample_world (length (posts sample_state)) req = Inr sample_response" for req
    by (simp add: sample_world_def)
  from send_message_outcome [of sample_world sample_config "''What is total revenue?''" sample_state]
    ready obtain req
    where sent: "posts (state_after (send_message sample_world sample_config
        ''What is total revenue?'' sample_state)) = posts sample_state @ [req]"
      and reply: "\<And>req resp kvs.
        posts (state_after (send_message sample_world sample_config
          ''What is total revenue?'' sample_state)) = posts sample_state @ [req] \<Longrightarrow>
        post sample_world (length (posts sample_state)) req = Inr resp \<Longrightarrow>
        status_code resp < 400 \<Longrightarrow> response_json resp = Inr (JObj kvs) \<Longrightarrow>
        result_of (send_message sample_world sample_config ''What is total revenue?'' sample_state) =
          Inr (AList.update ''request_id''
            (case headers_get (response_headers resp) ''X-Snowflake-Request-Id'' of
               None \<Rightarrow> JNull
             | Some v \<Rightarrow> JStr v) kvs)"
    by blast
  from reply [OF sent resp, of "[(''message'', JObj [(''content'',
             JArr [JObj [(''type'', JStr ''text''), (''text'', JStr ''Revenue is $5M'')]])])]"]
    ready show ?thesis
    by (simp add: sample_response_fields)
qed

text \<open>
  "In every case exactly one HTTP attempt", as the specification has it, fails where the
  request cannot be built: without \<open>host\<close> in the config nothing is sent and the reply
  is \<^verbatim>\<open>{}\<close>.
\<close>

theorem send_message_without_host_sends_nothing:
  "posts (state_after (send_message sample_world (sample_config(''host'' := None))
      ''What is total revenue?'' sample_state)) = [] \<and>
   result_of (send_message sample_world (sample_config(''host'' := None))
      ''What is total revenue?'' sample_state) = Inr []"
proof -
  have "\<not> request_ready (sample_config(''host'' := None)) sample_state"
    by (simp add: request_ready_def)
  from send_message_try_not_ready [OF this] obtain e
    where "send_message_try sample_world (sample_config(''host'' := None))
        ''What is total revenue?'' sample_state = (Inl e, [], sample_state)"
    by blast
  then show ?thesis
    by (simp add: send_message_def result_of_def state_after_def sample_state_def)
qed

section \<open>Rendering an SQL block\<close>

text \<open>
  C4, as the code has it. For a content block of type \<open>sql\<close> whose statement yields a
  result set with distinct column labels: with more than one row, three views are
  rendered, the raw table, a line chart and a bar chart, and with more than one column
  the two charts get the table with its first column as the index; with at most one
  row, only the raw table is rendered.
\<close>

theorem sql_result_views:
  assumes "py_getitem item ''type'' = Inr (JStr ''sql'')"
    and "py_getitem item ''statement'' = Inr statement"
    and "read_sql w (length (queries s)) statement = Inr df"
    and "distinct (map fst (columns df))"
  shows "(1 < nrows df \<longrightarrow>
            rendered (display_item w message_index item s) =
              [Expander ''SQL Query'' False [Code statement ''sql''],
               Expander ''Results'' True
                 [Spinner ''Running SQL...'',
                  Tabs [(''Data'', [Dataframe df]),
                        (''Line Chart'',
                         [Line_chart (if 1 < length (columns df)
                            then df\<lparr>index := Some (hd (columns df)), columns := tl (columns df)\<rparr>
                            else df)]),
                        (''Bar Chart'',
                         [Bar_chart (if 1 < length (columns df)
                            then df\<lparr>index := Some (hd (columns df)), columns := tl (columns df)\<rparr>
                            else df)])]]]) \<and>
         (nrows df \<le> 1 \<longrightarrow>
            rendered (display_item w message_index item s) =
              [Expander ''SQL Query'' False [Code statement ''sql''],
               Expander ''Results'' True [Spinner ''Running SQL...'', Dataframe df]])"
proof -
  have charted: "set_index df = df\<lparr>index := Some (hd (columns df)), columns := tl (columns df)\<rparr>"
    if "1 < length (columns df)"
    using that by (cases "columns df") (simp_all add: set_index_def)
  show ?thesis
    unfolding display_item_def
    by (simp add: assms then_do_def within_def from_result_def render_def read_sql_query_def
        show_result_def st_dataframe_def Let_def rendered_def charted)
qed

theorem sql_result_views_witness:
  "rendered (display_item tabular_world 1
       (JObj [(''type'', JStr ''sql''), (''statement'', JStr ''SELECT month, revenue FROM r'')])
       sample_state) =
     [Expander ''SQL Query'' False [Code (JStr ''SELECT month, revenue FROM r'') ''sql''],
      Expander ''Results'' True
        [Spinner ''Running SQL...'',
         Tabs [(''Data'',
                [Dataframe \<lparr>nrows = 2, index = None,
                   columns = [(''month'', [''Jan'', ''Feb'']), (''revenue'', [''2'', ''3''])]\<rparr>]),
               (''Line Chart'',
                [Line_chart \<lparr>nrows = 2, index = Some (''month'', [''Jan'', ''Feb'']),
                   columns = [(''revenue'', [''2'', ''3''])]\<rparr>]),
               (''Bar Chart'',
                [Bar_chart \<lparr>nrows = 2, index = Some (''month'', [''Jan'', ''Feb'']),
                   columns = [(''revenue'', [''2'', ''3''])]\<rparr>])]]]"
proof -
  have item: "py_getitem
      (JObj [(''type'', JStr ''sql''), (''statement'', JStr ''SELECT month, revenue FROM r'')])
      ''type'' = Inr (JStr ''sql'')"
    "py_getitem
      (JObj [(''type'', JStr ''sql''), (''statement'', JStr ''SELECT month, revenue FROM r'')])
      ''statement'' = Inr (JStr ''SELECT month, revenue FROM r'')"
    by simp_all
  have answer: "read_sql tabular_world (length (queries sample_state))
      (JStr ''SELECT month, revenue FROM r'') = Inr
        \<lparr>nrows = 2, index = None,
         columns = [(''month'', [''Jan'', ''Feb'']), (''revenue'', [''2'', ''3''])]\<rparr>"
    by (simp add: tabular_world_def)
  have labels: "distinct (map fst (columns
        \<lparr>nrows = 2, index = None,
         columns = [(''month'', [''Jan'', ''Feb'']), (''revenue'', [''2'', ''3''])]\<rparr>))"
    by simp
  from sql_result_views [OF item answer labels, of 1] show ?thesis
    by simp
qed

text \<open>
  Without distinct labels the three views are not rendered. A join that selects two
  columns named \<open>ID\<close> gives two rows here; the tabs are created, the table is refused with
  a ValueError, and neither the table nor a chart appears.
\<close>

theorem duplicate_labels_render_no_view:
  "read_sql duplicate_world (length (queries sample_state))
     (JStr ''SELECT a.ID, b.ID FROM a JOIN b'') =
     Inr \<lparr>nrows = 2, index = None, columns = [(''ID'', [''1'', ''2'']), (''ID'', [''7'', ''8''])]\<rparr> \<and>
   result_of (display_item duplicate_world 1
       (JObj [(''type'', JStr ''sql''), (''statement'', JStr ''SELECT a.ID, b.ID FROM a JOIN b'')])
       sample_state) = Inl ValueError \<and>
   rendered (display_item duplicate_world 1
       (JObj [(''type'', JStr ''sql''), (''statement'', JStr ''SELECT a.ID, b.ID FROM a JOIN b'')])
       sample_state) =
     [Expander ''SQL Query'' False [Code (JStr ''SELECT a.ID, b.ID FROM a JOIN b'') ''sql''],
      Expander ''Results'' True
        [Spinner ''Running SQL...'',
         Tabs [(''Data'', []), (''Line Chart'', []), (''Bar Chart'', [])]]]"
  by (simp add: display_item_def duplicate_world_def then_do_def within_def from_result_def
      render_def raises_def read_sql_query_def show_result_def result_of_def rendered_def)

section \<open>Startup\<close>

lemma connect_args_complete:
  assumes "connect_args cfg = Inr args"
  shows "cfg ''user'' \<noteq> None \<and> cfg ''password'' \<noteq> None \<and> cfg ''account'' \<noteq> None \<and>
         cfg ''warehouse'' \<noteq> None \<and> cfg ''database'' \<noteq> None \<and> cfg ''schema'' \<noteq> None \<and>
         cfg ''role'' \<noteq> None"
  using assms
  by (auto simp: connect_args_def and_then_def config_get_def split: option.splits)

lemma init_connection_missing_key:
  assumes "CONN s = None"
    and "k \<in> set [''user'', ''password'', ''account'', ''warehouse'', ''database'', ''schema'',
                   ''role'']"
    and "cfg k = None"
  shows "\<exists>e. init_connection w cfg s = (Inl Stop, [Error_box (Connect_failed e)], s)"
proof (cases "connect_args cfg")
  case (Inl e)
  with assms(1) show ?thesis
    by (simp add: init_connection_def and_then_def)
next
  case (Inr args)
  from connect_args_complete [OF this] assms(2,3) show ?thesis
    by auto
qed

text \<open>
  C5, as the code has it. The script halts with a user-visible error, before it renders
  anything else, when the \<open>snowflake\<close> section is missing, or when the session has no
  connection yet and one of user, password, account, warehouse, database, schema, role
  is missing. The keys host, stage and file are not looked at during startup.
\<close>

theorem startup_halts:
  assumes "secrets w ''snowflake'' = None \<or>
    (\<exists>cfg k. secrets w ''snowflake'' = Some cfg \<and> CONN s = None \<and> cfg k = None \<and>
       k \<in> set [''user'', ''password'', ''account'', ''warehouse'', ''database'', ''schema'',
                 ''role''])"
  shows "result_of (script w s) = Inl Stop \<and>
         (\<exists>n. rendered (script w s) = [Error_box n]) \<and>
         state_after (script w s) = s\<lparr>widget_keys := []\<rparr>"
  using assms
proof (elim disjE exE conjE)
  assume "secrets w ''snowflake'' = None"
  then show ?thesis
    by (simp add: script_def then_do_def new_run_def load_secrets_def render_def raises_def
        result_of_def rendered_def state_after_def)
next
  fix cfg k
  assume cfg: "secrets w ''snowflake'' = Some cfg" and conn: "CONN s = None"
    and missing: "cfg k = None"
    and k: "k \<in> set [''user'', ''password'', ''account'', ''warehouse'', ''database'',
                      ''schema'', ''role'']"
  from conn have "CONN (s\<lparr>widget_keys := []\<rparr>) = None"
    by simp
  from init_connection_missing_key [of "s\<lparr>widget_keys := []\<rparr>" k cfg w, OF this k missing] obtain e
    where "init_connection w cfg (s\<lparr>widget_keys := []\<rparr>) =
      (Inl Stop, [Error_box (Connect_failed e)], s\<lparr>widget_keys := []\<rparr>)"
    by blast
  with cfg show ?thesis
    by (simp add: script_def then_do_def new_run_def load_secrets_def returns_def
        result_of_def rendered_def state_after_def)
qed

theorem startup_halts_witness:
  "secrets (sample_world\<lparr>secrets := [''snowflake'' \<mapsto> sample_config(''role'' := None)]\<rparr>)
     ''snowflake'' = Some (sample_config(''role'' := None)) \<and>
   CONN fresh_state = None \<and> (sample_config(''role'' := None)) ''role'' = None \<and>
   result_of (script (sample_world\<lparr>secrets := [''snowflake'' \<mapsto> sample_config(''role'' := None)]\<rparr>)
     fresh_state) = Inl Stop \<and>
   (\<exists>n. rendered (script (sample_world\<lparr>secrets := [''snowflake'' \<mapsto> sample_config(''role'' := None)]\<rparr>)
     fresh_state) = [Error_box n])"
proof -
  let ?w = "sample_world\<lparr>secrets := [''snowflake'' \<mapsto> sample_config(''role'' := None)]\<rparr>"
  have hyp: "secrets ?w ''snowflake'' = Some (sample_config(''role'' := None)) \<and>
      CONN fresh_state = None \<and> (sample_config(''role'' := None)) ''role'' = None \<and>
      ''role'' \<in> set [''user'', ''password'', ''account'', ''warehouse'', ''database'', ''schema'',
                 ''role'']"
    by (simp add: fresh_state_def)
  then have "secrets ?w ''snowflake'' = None \<or>
    (\<exists>cfg k. secrets ?w ''snowflake'' = Some cfg \<and> CONN fresh_state = None \<and> cfg k = None \<and>
       k \<in> set [''user'', ''password'', ''account'', ''warehouse'', ''database'', ''schema'',
                 ''role''])"
    by blast
  from startup_halts [OF this] hyp show ?thesis
    by blast
qed

text \<open>
  The specification asks the same of \<open>host\<close>, \<open>stage\<close> and \<open>file\<close>. For \<open>host\<close> it
  fails: with every other key present the first run goes through to the end, title and
  all.
\<close>

theorem missing_host_does_not_halt:
  "secrets world_without_host ''snowflake'' = Some (sample_config(''host'' := None)) \<and>
   (sample_config(''host'' := None)) ''host'' = None \<and>
   result_of (script world_without_host fresh_state) = Inr () \<and>
   rendered (script world_without_host fresh_state) =
     [Success ''Connected to Snowflake successfully!'',
      Title ''Cortex Analyst'',
      Markdown (JStr (''Semantic Model: `'' @ ''revenue.yaml'' @ ''`''))]"
proof -
  have args: "connect_args (sample_config(''host'' := None)) =
      Inr [(''user'', ''analyst''), (''password'', ''secret''), (''account'', ''acme''),
           (''warehouse'', ''wh''), (''database'', ''sales''), (''schema'', ''public''),
           (''role'', ''reader'')]"
    by (simp add: connect_args_def and_then_def config_get_def sample_config_def)
  have model: "config_get (sample_config(''host'' := None)) ''file'' = Inr ''revenue.yaml''"
    by (simp add: config_get_def sample_config_def)
  have "script world_without_host fresh_state =
      (Inr (),
       [Success ''Connected to Snowflake successfully!'',
        Title ''Cortex Analyst'',
        Markdown (JStr (''Semantic Model: `'' @ ''revenue.yaml'' @ ''`''))],
       fresh_state\<lparr>CONN := Some \<lparr>token = ''t0k''\<rparr>, messages := Some []\<rparr>)"
    by (simp add: script_def then_do_def new_run_def load_secrets_def returns_def
        init_connection_def args model and_then_def world_without_host_def sample_world_def
        fresh_state_def render_def uncaught_def from_result_def
        init_messages_def chat_page_def display_existing_messages_def
        handle_chat_input_def handle_active_suggestion_def)
  then show ?thesis
    by (simp add: result_of_def rendered_def world_without_host_def sample_world_def)
qed

section \<open>The pending suggestion\<close>

lemma then_do_returns [simp]: "then_do (returns x) f = f x"
  by (rule ext) (simp add: then_do_def returns_def split: prod.splits)

lemma clicked_button_sets_slot:
  assumes "distinct (widget_keys s)"
    and "(label, key) \<in> set (buttons (rendered (display_existing_messages w s)))"
    and "clicked w = Some key"
  shows "active_suggestion (state_after (display_existing_messages w s)) = Some label"
proof -
  let ?run = "display_existing_messages w s"
  from display_existing_messages_effect [OF run_eq]
  have effect: "button_effect w s (rendered ?run) (state_after ?run)" .
  with assms(1) have "distinct (map snd (buttons (rendered ?run)))"
    by (simp add: button_effect_def)
  from pressed_slot_unique [OF assms(2) this] effect assms(3) show ?thesis
    by (simp add: button_effect_def)
qed

lemma display_existing_messages_frame:
  assumes "display_existing_messages w s = (r, out, s')"
  shows "display_frame s s'"
  using assms
  by (auto simp: display_existing_messages_def split: option.splits
      dest: display_messages_frame)

lemma handle_active_suggestion_empty:
  "active_suggestion s = Some [] \<Longrightarrow> handle_active_suggestion w cfg s = (Inr (), [], s)"
  by (simp add: handle_active_suggestion_def returns_def)

lemma handle_active_suggestion_done:
  assumes "active_suggestion s = Some label" and "label \<noteq> []" and "messages s = Some log"
    and "handle_active_suggestion w cfg s = (Inr (), out, s')"
  shows "active_suggestion s' = None \<and>
         (\<exists>c rid. messages s' = Some (log @
            [\<lparr>turn_role = ''user'',
              turn_content = JArr [JObj [(''type'', JStr ''text''), (''text'', JStr label)]],
              turn_request_id = JNull\<rparr>,
             \<lparr>turn_role = ''assistant'', turn_content = c, turn_request_id = rid\<rparr>])) \<and>
         (posts s' = posts s \<or> (\<exists>req. posts s' = posts s @ [req]))"
proof -
  from assms(1,2,4) have "then_do (process_message w cfg label) (\<lambda>_. set_active_suggestion None) s
      = (Inr (), out, s')"
    by (simp add: handle_active_suggestion_def)
  then obtain out1 s1 where processed: "process_message w cfg label s = (Inr (), out1, s1)"
    and cleared: "s' = s1\<lparr>active_suggestion := None\<rparr>"
    by (auto elim!: then_doE simp: set_active_suggestion_def)
  from process_message_log [OF processed assms(3)] process_message_posts [OF processed] cleared
  show ?thesis
    by auto
qed



lemma button_key_values:
  "button_key (Suc 0) 0 = ''1_0''" "button_key (Suc 0) (Suc 0) = ''1_1''"
  by code_simp+

lemma suggesting_state_rendered:
  "display_existing_messages (world_clicking key) suggesting_state =
     (Inr (),
      [Chat_message ''user'' [Markdown (JStr ''Hello'')],
       Chat_message ''assistant''
         [Expander ''Suggestions'' True
            [Button ''What is total revenue?'' ''1_0'', Button '''' ''1_1'']]],
      suggesting_state
        \<lparr>active_suggestion :=
           (if key = ''1_1'' then Some ''''
            else if key = ''1_0'' then Some ''What is total revenue?'' else None),
         widget_keys := [''1_0'', ''1_1'']\<rparr>)"
  by (simp add: display_existing_messages_def suggesting_state_def sample_state_def
      display_content_def message_index_or_def len_messages_def then_do_def within_def
      returns_def from_result_def render_def display_item_def and_then_def st_button_def
      button_key_values set_active_suggestion_def world_clicking_def sample_world_def)

lemma world_clicking_simps [simp]:
  "clicked (world_clicking key) = Some key" "chat_input (world_clicking key) = None"
  "post (world_clicking key) n req = Inr sample_response"
  by (simp_all add: world_clicking_def sample_world_def)


lemma suggesting_state_fields:
  "CONN suggesting_state = Some \<lparr>token = ''t0k''\<rparr>"
  "messages suggesting_state = Some
      [\<lparr>turn_role = ''user'',
         turn_content = JArr [JObj [(''type'', JStr ''text''), (''text'', JStr ''Hello'')]],
         turn_request_id = JNull\<rparr>,
       \<lparr>turn_role = ''assistant'',
         turn_content = JArr [JObj [(''type'', JStr ''suggestions''),
           (''suggestions'', JArr [JStr ''What is total revenue?'', JStr ''''])]],
         turn_request_id = JNull\<rparr>]"
  "widget_keys suggesting_state = []" "posts suggesting_state = []"
  by (simp_all add: suggesting_state_def sample_state_def)


lemma unanswered_world_simps [simp]:
  "clicked (unanswered_world click) = click" "chat_input (unanswered_world click) = None"
  "post (unanswered_world click) n req = Inr query_response"
  "read_sql (unanswered_world click) n statement = Inl (DatabaseError ''no such table'')"
  by (simp_all add: unanswered_world_def sample_world_def)


lemmas sample_tried =
  send_message_try_ready [OF sample_config_values, where conn = "\<lparr>token = ''t0k''\<rparr>"]

lemma button_key_more:
  "button_key (Suc (Suc (Suc 0))) 0 = ''3_0''" "button_key (Suc (Suc 0)) 0 = ''2_0''"
  by code_simp+





section \<open>The empty suggestion\<close>

lemma keepsD: "keeps I m \<Longrightarrow> I s \<Longrightarrow> m s = (r, out, s') \<Longrightarrow> I s'"
  unfolding keeps_def by blast

lemma keeps_then_do:
  assumes "keeps I m" and "\<And>x. keeps I (f x)"
  shows "keeps I (then_do m f)"
  unfolding keeps_def
proof (intro allI impI)
  fix s r out s'
  assume "I s" and "then_do m f s = (r, out, s')"
  from this(2) show "I s'"
  proof (cases rule: then_doE)
    case (raised e)
    from keepsD [OF assms(1) \<open>I s\<close> raised(1)] show ?thesis .
  next
    case (continued x out1 s1 out2)
    from keepsD [OF assms(2) keepsD [OF assms(1) \<open>I s\<close> continued(1)] continued(2)]
    show ?thesis .
  qed
qed

lemma keeps_uncaught: "keeps I m \<Longrightarrow> keeps I (uncaught m)"
  unfolding keeps_def by (auto elim!: uncaughtE)

lemma keeps_pure [simp]:
  "keeps I (returns x)" "keeps I (raises e)" "keeps I (from_result y)" "keeps I (render wd)"
  by (simp_all add: keeps_def)

lemma display_keeps_slot:
  assumes "button_effect w s out s'" and "clicked w = None"
  shows "active_suggestion s' = active_suggestion s"
  using assms by (simp add: button_effect_def)

lemma handle_chat_input_keeps:
  assumes "clicked w = None"
  shows "keeps empty_pending (handle_chat_input w cfg)"
  unfolding keeps_def
proof (intro allI impI)
  fix s r out s'
  assume pending: "empty_pending s" and run: "handle_chat_input w cfg s = (r, out, s')"
  show "empty_pending s'"
  proof (cases "\<exists>u. chat_input w = Some u \<and> u \<noteq> []")
    case True
    then obtain u where "chat_input w = Some u" and "u \<noteq> []"
      by blast
    with run have processed: "process_message w cfg u s = (r, out, s')"
      by (simp add: handle_chat_input_def)
    from pending obtain log where "messages s = Some log"
      by (auto simp: empty_pending_def)
    from process_message_log [OF processed this]
      display_keeps_slot [OF process_message_effect [OF processed] assms] pending
    show ?thesis
      by (auto simp: empty_pending_def)
  next
    case False
    with run pending show ?thesis
      by (auto simp: handle_chat_input_def split: option.splits)
  qed
qed

lemma display_existing_messages_keeps:
  assumes "clicked w = None"
  shows "keeps empty_pending (display_existing_messages w)"
  unfolding keeps_def
proof (intro allI impI)
  fix s r out s'
  assume "empty_pending s" and run: "display_existing_messages w s = (r, out, s')"
  with display_keeps_slot [OF display_existing_messages_effect [OF run] assms]
    display_existing_messages_frame [OF run]
  show "empty_pending s'"
    by (simp add: empty_pending_def display_frame_def)
qed

lemma handle_active_suggestion_keeps: "keeps empty_pending (handle_active_suggestion w cfg)"
  unfolding keeps_def
  by (auto simp: empty_pending_def handle_active_suggestion_empty)

lemma chat_page_keeps:
  assumes "clicked w = None"
  shows "keeps empty_pending (chat_page w cfg)"
  unfolding chat_page_def
  by (intro keeps_then_do display_existing_messages_keeps handle_chat_input_keeps
      handle_active_suggestion_keeps assms)

lemma script_keeps:
  assumes "clicked w = None"
  shows "keeps empty_pending (script w)"
proof -
  have started: "keeps empty_pending new_run"
    by (auto simp: keeps_def new_run_def empty_pending_def)
  have loaded: "keeps empty_pending (load_secrets w)"
    unfolding load_secrets_def
    by (cases "secrets w ''snowflake''") (simp_all add: keeps_then_do)
  have connected: "keeps empty_pending (init_connection w cfg)" for cfg
    by (auto simp: keeps_def init_connection_def empty_pending_def split: if_splits sum.splits)
  have initialised: "keeps empty_pending init_messages"
    by (auto simp: keeps_def init_messages_def empty_pending_def)
  show ?thesis
    unfolding script_def
    by (intro keeps_then_do keeps_uncaught chat_page_keeps started loaded connected initialised
        keeps_pure assms)
qed

text \<open>
  C10. When the suggestion whose text is the empty string is selected, the slot is set
  to \<open>''''\<close>, and the last block of the script, which tests the truthiness of the slot,
  does nothing: no turn is appended, no request is sent, and the slot is not reset. It
  stays \<open>''''\<close> through every later run of the script in which no suggestion button is
  pressed.
\<close>

theorem empty_suggestion_stays:
  assumes "messages s = Some log" and "distinct (widget_keys s)" and "chat_input w = None"
    and "('''', key) \<in> set (buttons (rendered (display_existing_messages w s)))"
    and "clicked w = Some key"
  shows "active_suggestion (state_after (chat_page w cfg s)) = Some [] \<and>
         messages (state_after (chat_page w cfg s)) = Some log \<and>
         posts (state_after (chat_page w cfg s)) = posts s \<and>
         (\<forall>w'. clicked w' = None \<longrightarrow>
            active_suggestion (state_after (script w' (state_after (chat_page w cfg s)))) =
              Some [])"
proof -
  obtain r1 out1 s1 where shown: "display_existing_messages w s = (r1, out1, s1)"
    by (cases "display_existing_messages w s")
  from clicked_button_sets_slot [OF assms(2,4,5)] shown
  have slot: "active_suggestion s1 = Some []"
    by (simp add: state_after_def)
  from display_existing_messages_frame [OF shown] assms(1)
  have same: "messages s1 = Some log" "posts s1 = posts s"
    by (simp_all add: display_frame_def)
  have "state_after (chat_page w cfg s) = s1"
  proof (cases r1)
    case (Inl e)
    with shown show ?thesis
      by (simp add: chat_page_def then_do_def state_after_def)
  next
    case (Inr u)
    with shown assms(3) handle_active_suggestion_empty [OF slot, of w cfg] show ?thesis
      by (simp add: chat_page_def then_do_def handle_chat_input_def state_after_def)
  qed
  moreover have "active_suggestion (state_after (script w' s1)) = Some []"
    if "clicked w' = None" for w'
    using keepsD [OF script_keeps [OF that] _ run_eq, of s1] slot same(1)
    by (simp add: empty_pending_def)
  ultimately show ?thesis
    using slot same by simp
qed

theorem empty_suggestion_stays_witness:
  "active_suggestion (state_after
     (chat_page (world_clicking ''1_1'') sample_config suggesting_state)) = Some [] \<and>
   messages (state_after (chat_page (world_clicking ''1_1'') sample_config suggesting_state)) =
     messages suggesting_state \<and>
   active_suggestion (state_after (script sample_world (state_after
     (chat_page (world_clicking ''1_1'') sample_config suggesting_state)))) = Some []"
proof -
  have keys: "distinct (widget_keys suggesting_state)"
    by (simp add: suggesting_state_fields)
  have quiet: "chat_input (world_clicking ''1_1'') = None"
    by simp
  have button: "('''', ''1_1'') \<in> set (buttons (rendered
      (display_existing_messages (world_clicking ''1_1'') suggesting_state)))"
    by (simp add: suggesting_state_rendered rendered_def buttons_def)
  have click: "clicked (world_clicking ''1_1'') = Some ''1_1''"
    by simp
  have later: "clicked sample_world = None"
    by (simp add: sample_world_def)
  from empty_suggestion_stays [OF suggesting_state_fields(2) keys quiet button click,
      of sample_config] later
  show ?thesis
    by (simp add: suggesting_state_fields)
qed

section \<open>Reading a rendered turn back\<close>

lemma rendered_blocks_simps [simp]:
  "rendered_blocks [] = []"
  "rendered_blocks (out1 @ out2) = rendered_blocks out1 @ rendered_blocks out2"
  "rendered_blocks (wd # out) =
     (case widget_block wd of None \<Rightarrow> rendered_blocks out | Some b \<Rightarrow> b # rendered_blocks out)"
  by (simp_all add: rendered_blocks_def map_filter_def split: option.splits)

lemma rendered_turns_simps [simp]:
  "rendered_turns [] = []"
  "rendered_turns (out1 @ out2) = rendered_turns out1 @ rendered_turns out2"
  "rendered_turns (Chat_message name inner # out) =
     (name, rendered_request_id inner, rendered_blocks inner) # rendered_turns out"
  by (simp_all add: rendered_turns_def map_filter_def)


lemma rendered_request_id_other [simp]:
  "label \<noteq> ''Request ID'' \<Longrightarrow> rendered_request_id (Expander label expanded inner # rest) = JNull"
  by (cases "Expander label expanded inner # rest" rule: rendered_request_id.cases) auto










section \<open>Keys of the suggestion buttons\<close>

lemma transcript_keys_append:
  "transcript_keys k (a @ b) = transcript_keys k a @ transcript_keys (k + chat_count a) b"
proof (induction a arbitrary: k)
  case Nil
  then show ?case by simp
next
  case (Cons wd a)
  then show ?case by (cases wd) simp_all
qed

lemma chat_count_append: "chat_count (a @ b) = chat_count a + chat_count b"
proof (induction a)
  case Nil
  then show ?case by simp
next
  case (Cons wd a)
  then show ?case by (cases wd) simp_all
qed

lemma keyed_Nil [simp]: "keyed mi []"
  by (simp add: keyed_def)

lemma keyed_append [simp]: "keyed mi (a @ b) \<longleftrightarrow> keyed mi a \<and> keyed mi b"
  by (auto simp: keyed_def)

lemma keyed_Cons: "keyed mi [wd] \<Longrightarrow> keyed mi out \<Longrightarrow> keyed mi (wd # out)"
  by (simp add: keyed_def)

lemma keyed_no_buttons: "buttons out = [] \<Longrightarrow> keyed mi out"
  by (auto simp: keyed_def buttons_def block_keys_def)

lemma st_button_out:
  assumes "st_button w label key s = (r, out, s')"
  shows "out = [] \<or> out = [Button label key]"
  using assms by (auto simp: st_button_def split: if_splits)

lemma suggestion_buttons_keys:
  "suggestion_buttons w mi si xs s = (r, out, s') \<Longrightarrow>
     map snd (buttons out) = map (button_key mi) [si..<si + length (buttons out)]"
proof (induction xs arbitrary: si s r out s')
  case Nil
  then show ?case by (simp add: buttons_def)
next
  case (Cons x xs)
  show ?case
  proof (cases x)
    case (JStr label)
    with Cons.prems have run: "then_do (st_button w label (button_key mi si)) (\<lambda>pressed.
          then_do (if pressed then set_active_suggestion (Some label) else returns ()) (\<lambda>_.
          suggestion_buttons w mi (Suc si) xs)) s = (r, out, s')"
      by simp
    from run show ?thesis
    proof (cases rule: then_doE)
      case (raised e)
      then show ?thesis
        by (auto simp: st_button_def buttons_def split: if_splits)
    next
      case (continued pressed out1 s1 out2)
      define n where "n = length (buttons out2)"
      from continued(1) have out1: "out1 = [Button label (button_key mi si)]"
        by (auto simp: st_button_def split: if_splits)
      from continued(2) obtain s2 where rest: "suggestion_buttons w mi (Suc si) xs s2 = (r, out2, s')"
        by (auto elim!: then_doE simp: set_active_suggestion_def split: if_splits)
      from Cons.IH [OF rest]
      have later: "map snd (buttons out2) = map (button_key mi) [Suc si..<Suc si + n]"
        by (simp only: n_def)
      from out1 continued(3) have all: "buttons out = (label, button_key mi si) # buttons out2"
        by (simp add: buttons_def)
      have "[si..<si + Suc n] = si # [Suc si..<Suc si + n]"
        by (simp add: upt_conv_Cons)
      with later all show ?thesis
        by (simp add: n_def)
    qed
  qed (use Cons.prems in \<open>auto simp: buttons_def\<close>)
qed

lemma suggestions_keyed:
  assumes "suggestion_buttons w mi 0 xs s = (r, inner, s')"
  shows "keyed mi [Expander label expanded inner]"
proof -
  from suggestion_buttons_keys [OF assms]
  have "map snd (buttons inner) = map (button_key mi) [0..<length (buttons inner)]"
    by simp
  then have "block_keys (Expander label expanded inner) =
      enumerate 0 (map (button_key mi) [0..<length (buttons inner)])"
    by (simp add: block_keys_def buttons_def)
  then show ?thesis
    by (auto simp: keyed_def in_set_enumerate_eq)
qed

lemma display_item_keyed:
  assumes "display_item w mi item s = (r, out, s')"
  shows "keyed mi out"
proof -
  from assms have "buttons out = [] \<or>
      (\<exists>xs inner s0. out = [Expander ''Suggestions'' True inner] \<and>
         suggestion_buttons w mi 0 xs s0 = (r, inner, s'))"
    unfolding display_item_def
    by (auto elim!: then_doE withinE
        simp: read_sql_query_def show_result_def st_dataframe_def Let_def buttons_def
        split: if_splits)
  then show ?thesis
    by (auto intro: keyed_no_buttons suggestions_keyed)
qed

lemma display_items_keyed:
  "display_items w mi items s = (r, out, s') \<Longrightarrow> keyed mi out"
proof (induction items arbitrary: s r out s')
  case Nil
  then show ?case by simp
next
  case (Cons item items)
  from Cons.prems show ?case
    by (auto elim!: then_doE dest: display_item_keyed Cons.IH)
qed

lemma display_content_keyed:
  assumes "display_content w content request_id message_index s = (r, out, s')"
    and "messages s = Some log"
  shows "keyed (case message_index of None \<Rightarrow> length log
                | Some i \<Rightarrow> if i = 0 then length log else i) out"
proof -
  let ?mi = "case message_index of None \<Rightarrow> length log
                | Some i \<Rightarrow> if i = 0 then length log else i"
  have index: "message_index_or message_index len_messages s = (Inr ?mi, [], s)"
    using assms(2)
    by (simp add: message_index_or_def len_messages_def returns_def split: option.splits)
  from assms(1) index have rest: "then_do (if truthy request_id
              then within (Expander ''Request ID'' False) (render (Markdown request_id))
              else returns ()) (\<lambda>_.
     then_do (from_result (py_iter content)) (display_items w ?mi)) s = (r, out, s')"
    by (simp add: display_content_def then_do_def)
  have head: "keyed ?mi [Expander ''Request ID'' False [Markdown request_id]]"
    by (rule keyed_no_buttons) (simp add: buttons_def)
  from rest show ?thesis
  proof (cases rule: then_doE)
    case (raised e)
    then show ?thesis
      by (auto elim!: withinE split: if_splits)
  next
    case (continued x out1 s1 out2)
    from continued(1) head have "keyed ?mi out1"
      by (auto elim!: withinE split: if_splits)
    moreover from continued(2) have "keyed ?mi out2"
      by (auto elim!: then_doE dest: display_items_keyed)
    ultimately show ?thesis
      using continued(3) by simp
  qed
qed

lemma chat_message_keys:
  assumes "keyed mi inner" and "e \<in> set (transcript_keys k [Chat_message name inner])"
  shows "fst (fst e) = k \<and> snd e = button_key mi (snd (fst e))"
proof -
  from assms(2) obtain wd p where found: "wd \<in> set inner" "p \<in> set (block_keys wd)"
    and e: "e = ((k, fst p), snd p)"
    by auto
  from assms(1) found have "snd p = button_key mi (fst p)"
    unfolding keyed_def by blast
  with e show ?thesis
    by simp
qed

lemma display_messages_keys:
  "display_messages w i turns s = (r, out, s') \<Longrightarrow> messages s = Some log \<Longrightarrow>
     (\<forall>e \<in> set (transcript_keys i out).
        i \<le> fst (fst e) \<and> fst (fst e) < i + length turns \<and>
        snd e = button_key (if fst (fst e) = 0 then length log else fst (fst e)) (snd (fst e))) \<and>
     (\<forall>x. r = Inr x \<longrightarrow> chat_count out = length turns)"
proof (induction turns arbitrary: i s r out s')
  case Nil
  then show ?case by simp
next
  case (Cons t turns)
  from Cons.prems(1) have run: "then_do (within (Chat_message (turn_role t))
               (display_content w (turn_content t) (turn_request_id t) (Some i))) (\<lambda>_.
     display_messages w (Suc i) turns) s = (r, out, s')"
    by simp
  have first: "fst (fst e) = i \<and>
      snd e = button_key (if i = 0 then length log else i) (snd (fst e))"
    if "display_content w (turn_content t) (turn_request_id t) (Some i) s = (r1, inner, s1)"
      and "e \<in> set (transcript_keys i [Chat_message (turn_role t) inner])" for r1 inner s1 e
    using chat_message_keys [OF _ that(2)] display_content_keyed [OF that(1) Cons.prems(2)]
    by simp
  from run show ?case
  proof (cases rule: then_doE)
    case (raised e)
    then obtain inner where shown:
      "display_content w (turn_content t) (turn_request_id t) (Some i) s = (Inl e, inner, s')"
      and out: "out = [Chat_message (turn_role t) inner]"
      by (auto elim!: withinE)
    from first [OF shown] out raised(2) show ?thesis
      by auto
  next
    case (continued x out1 s1 out2)
    then obtain inner where shown:
      "display_content w (turn_content t) (turn_request_id t) (Some i) s = (Inr x, inner, s1)"
      and out1: "out1 = [Chat_message (turn_role t) inner]"
      by (auto elim!: withinE)
    from display_content_frame [OF shown] Cons.prems(2) have "messages s1 = Some log"
      by (simp add: display_frame_def)
    from Cons.IH [OF continued(2) this]
    have later: "\<forall>e \<in> set (transcript_keys (Suc i) out2).
        Suc i \<le> fst (fst e) \<and> fst (fst e) < Suc i + length turns \<and>
        snd e = button_key (if fst (fst e) = 0 then length log else fst (fst e)) (snd (fst e))"
      and count: "\<forall>x. r = Inr x \<longrightarrow> chat_count out2 = length turns"
      by simp_all
    have split: "transcript_keys i out =
        transcript_keys i [Chat_message (turn_role t) inner] @ transcript_keys (Suc i) out2"
      using continued(3) out1 by simp
    show ?thesis
    proof (intro conjI ballI allI impI)
      fix e assume "e \<in> set (transcript_keys i out)"
      then consider "e \<in> set (transcript_keys i [Chat_message (turn_role t) inner])"
        | "e \<in> set (transcript_keys (Suc i) out2)"
        unfolding split by auto
      then have "i \<le> fst (fst e) \<and> fst (fst e) < i + length (t # turns) \<and>
          snd e = button_key (if fst (fst e) = 0 then length log else fst (fst e)) (snd (fst e))"
      proof cases
        case 1
        from first [OF shown 1] show ?thesis by simp
      next
        case 2
        with later show ?thesis by auto
      qed
      then show "i \<le> fst (fst e)" and "fst (fst e) < i + length (t # turns)"
        and "snd e = button_key (if fst (fst e) = 0 then length log else fst (fst e)) (snd (fst e))"
        by simp_all
    next
      fix x assume "r = Inr x"
      with count continued(3) out1 show "chat_count out = length (t # turns)"
        by simp
    qed
  qed
qed

lemma process_message_keys:
  assumes run: "process_message w cfg prompt s = (r, out, s')" and log: "messages s = Some log"
  shows "(\<forall>e \<in> set (transcript_keys k out).
            fst (fst e) = Suc k \<and> snd e = button_key (Suc (length log)) (snd (fst e))) \<and>
         (\<forall>x. r = Inr x \<longrightarrow> chat_count out = 2)"
proof -
  let ?u = "\<lparr>turn_role = ''user'',
              turn_content = JArr [JObj [(''type'', JStr ''text''), (''text'', JStr prompt)]],
              turn_request_id = JNull\<rparr>"
  let ?s1 = "s\<lparr>messages := Some (log @ [?u])\<rparr>"
  let ?body = "then_do (render (Spinner ''Generating response...'')) (\<lambda>_.
        then_do (send_message w cfg prompt) (\<lambda>response.
        then_do (from_result
                  (py_get (dict_get response ''message'' (JObj [])) ''content'' (JArr []))) (\<lambda>content.
        then_do (display_content w content (dict_get response ''request_id'' JNull) None) (\<lambda>_.
        returns (content, dict_get response ''request_id'' JNull)))))"
  have body_keyed: "keyed (Suc (length log)) ob" if body: "?body ?s1 = (rb, ob, t)" for rb ob t
  proof -
    have spinner: "keyed (Suc (length log)) [Spinner ''Generating response...'']"
      by (rule keyed_no_buttons) (simp add: buttons_def)
    from body show ?thesis
    proof (cases rule: then_doE)
      case (raised e)
      then show ?thesis by simp
    next
      case spun: (continued x out1 s2 out2)
      from spun(1) have out1: "out1 = [Spinner ''Generating response...'']" and s2: "s2 = ?s1"
        by simp_all
      from spun(2) show ?thesis
      proof (cases rule: then_doE)
        case (raised e)
        with send_message_cases [OF raised(1)] show ?thesis
          by simp
      next
        case sent: (continued response out3 s3 out4)
        from send_message_cases [OF sent(1)] have out3: "keyed (Suc (length log)) out3"
          by (simp add: keyed_no_buttons)
        from send_message_messages [OF sent(1)] s2 have s3: "messages s3 = Some (log @ [?u])"
          by simp
        have out4: "keyed (Suc (length log)) out4"
          using sent(2)
        proof (cases rule: then_doE)
          case (raised e)
          then show ?thesis by simp
        next
          case got: (continued content out5 s4 out6)
          from got(1) have "out5 = []" and s4: "s4 = s3"
            by simp_all
          from got(2) have "keyed (Suc (length log)) out6"
          proof (cases rule: then_doE)
            case (raised e)
            from display_content_keyed [OF raised(1)] s3 s4 show ?thesis
              by simp
          next
            case (continued y out7 s5 out8)
            from display_content_keyed [OF continued(1)] s3 s4 continued(2,3) show ?thesis
              by simp
          qed
          with \<open>out5 = []\<close> got(3) show ?thesis
            by simp
        qed
        from spinner out1 out3 out4 spun(3) sent(3) show ?thesis
          by (auto intro: keyed_Cons)
      qed
    qed
  qed
  define answer where "answer = ?body"
  have shape: "\<exists>inner rb t. answer ?s1 = (rb, inner, t) \<and>
      out = [Chat_message ''user'' [Markdown (JStr prompt)], Chat_message ''assistant'' inner]"
    using run [unfolded process_message_def, folded answer_def] log
    by (auto elim!: then_doE withinE simp: append_message_def split: prod.splits option.splits)
  then obtain inner rb t where body: "?body ?s1 = (rb, inner, t)"
    and out: "out = [Chat_message ''user'' [Markdown (JStr prompt)], Chat_message ''assistant'' inner]"
    unfolding answer_def by blast
  have keys: "transcript_keys k out = transcript_keys (Suc k) [Chat_message ''assistant'' inner]"
    by (simp add: out block_keys_def)
  from chat_message_keys [OF body_keyed [OF body]] show ?thesis
    unfolding keys by (auto simp: out)
qed

lemma process_message_live:
  assumes "process_message w cfg prompt s = (r, out, s')" and "messages s = Some log"
  shows "(\<forall>e \<in> set (transcript_keys (length log) out).
            length log < fst (fst e) \<and> snd e = button_key (fst (fst e)) (snd (fst e))) \<and>
         (\<forall>x. r = Inr x \<longrightarrow>
            (\<exists>log'. messages s' = Some log' \<and> length log' = length log + chat_count out))"
  using process_message_keys [OF assms, of "length log"] process_message_log [OF assms]
  by auto

lemma handle_chat_input_live:
  assumes "handle_chat_input w cfg s = (r, out, s')" and "messages s = Some log"
  shows "(\<forall>e \<in> set (transcript_keys (length log) out).
            length log < fst (fst e) \<and> snd e = button_key (fst (fst e)) (snd (fst e))) \<and>
         (\<forall>x. r = Inr x \<longrightarrow>
            (\<exists>log'. messages s' = Some log' \<and> length log' = length log + chat_count out))"
proof (cases "\<exists>prompt. chat_input w = Some prompt \<and> prompt \<noteq> []")
  case True
  then obtain prompt where "process_message w cfg prompt s = (r, out, s')"
    using assms(1) by (auto simp: handle_chat_input_def)
  from process_message_live [OF this assms(2)] show ?thesis .
next
  case False
  with assms have "out = []" and "s' = s"
    by (auto simp: handle_chat_input_def split: option.splits)
  with assms(2) show ?thesis
    by simp
qed

lemma handle_active_suggestion_live:
  assumes "handle_active_suggestion w cfg s = (r, out, s')" and "messages s = Some log"
  shows "(\<forall>e \<in> set (transcript_keys (length log) out).
            length log < fst (fst e) \<and> snd e = button_key (fst (fst e)) (snd (fst e))) \<and>
         (\<forall>x. r = Inr x \<longrightarrow>
            (\<exists>log'. messages s' = Some log' \<and> length log' = length log + chat_count out))"
proof (cases "\<exists>suggestion. active_suggestion s = Some suggestion \<and> suggestion \<noteq> []")
  case True
  then obtain suggestion where run:
    "then_do (process_message w cfg suggestion) (\<lambda>_. set_active_suggestion None) s = (r, out, s')"
    using assms(1) by (auto simp: handle_active_suggestion_def)
  from run show ?thesis
  proof (cases rule: then_doE)
    case (raised e)
    from process_message_live [OF raised(1) assms(2)] raised(2) show ?thesis
      by simp
  next
    case (continued x out1 s1 out2)
    from continued(2) have "out2 = []" and "messages s' = messages s1"
      by (auto simp: set_active_suggestion_def)
    with process_message_live [OF continued(1) assms(2)] continued(3) show ?thesis
      by simp
  qed
next
  case False
  with assms have "out = []" and "s' = s"
    by (auto simp: handle_active_suggestion_def split: option.splits)
  with assms(2) show ?thesis
    by simp
qed

lemma chat_page_keys:
  assumes "messages s = Some log"
    and "e \<in> set (transcript_keys 0 (rendered (chat_page w cfg s)))"
  shows "fst (fst e) \<noteq> length log \<and>
         snd e = button_key (if fst (fst e) = 0 then length log else fst (fst e)) (snd (fst e))"
proof -
  let ?stored = "\<lambda>e. fst (fst e) < length log \<and>
      snd e = button_key (if fst (fst e) = 0 then length log else fst (fst e)) (snd (fst e))"
  let ?live = "\<lambda>n e. n < fst (fst e) \<and> snd e = button_key (fst (fst e)) (snd (fst e))"
  have stored: "?thesis" if "?stored e"
    using that by simp
  have live: "?thesis" if "?live n e" and "length log \<le> n" for n
    using that by simp
  obtain r out s' where page: "chat_page w cfg s = (r, out, s')"
    by (cases "chat_page w cfg s")
  with assms(2) have e: "e \<in> set (transcript_keys 0 out)"
    by (simp add: rendered_def)
  from page [unfolded chat_page_def] show ?thesis
  proof (cases rule: then_doE)
    case (raised x)
    with assms(1) have "display_messages w 0 log s = (Inl x, out, s')"
      by (simp add: display_existing_messages_def)
    from display_messages_keys [OF this assms(1)] e have "?stored e"
      by simp
    then show ?thesis by (rule stored)
  next
    case shown: (continued x out1 s1 outr)
    with assms(1) have "display_messages w 0 log s = (Inr x, out1, s1)"
      by (simp add: display_existing_messages_def)
    from display_messages_keys [OF this assms(1)]
    have first: "\<forall>e \<in> set (transcript_keys 0 out1). ?stored e"
      and count: "chat_count out1 = length log"
      by simp_all
    from display_existing_messages_frame [OF shown(1)] assms(1) have log1: "messages s1 = Some log"
      by (simp add: display_frame_def)
    have parts: "transcript_keys 0 out =
        transcript_keys 0 out1 @ transcript_keys (length log) outr"
      using shown(3) count by (simp add: transcript_keys_append)
    from shown(2) show ?thesis
    proof (cases rule: then_doE)
      case (raised y)
      from handle_chat_input_live [OF raised(1) log1]
      have "\<forall>e \<in> set (transcript_keys (length log) outr). ?live (length log) e"
        by simp
      with first e parts consider "?stored e" | "?live (length log) e"
        by auto
      then show ?thesis
        by cases (auto intro: stored live)
    next
      case typed: (continued y out2 s2 out3)
      from handle_chat_input_live [OF typed(1) log1]
      have second: "\<forall>e \<in> set (transcript_keys (length log) out2). ?live (length log) e"
        and "\<exists>log'. messages s2 = Some log' \<and> length log' = length log + chat_count out2"
        by simp_all
      then obtain log2 where log2: "messages s2 = Some log2"
        and len2: "length log2 = length log + chat_count out2"
        by blast
      from handle_active_suggestion_live [OF typed(2) log2]
      have third: "\<forall>e \<in> set (transcript_keys (length log2) out3). ?live (length log2) e"
        by simp
      have "transcript_keys (length log) outr =
          transcript_keys (length log) out2 @ transcript_keys (length log2) out3"
        using typed(3) len2 by (simp add: transcript_keys_append)
      with first second third e parts
      consider "?stored e" | "?live (length log) e" | "?live (length log2) e"
        by auto
      then show ?thesis
      proof cases
        case 1
        then show ?thesis by (rule stored)
      next
        case 2
        then show ?thesis by (rule live) simp
      next
        case 3
        then show ?thesis by (rule live) (simp add: len2)
      qed
    qed
  qed
qed

text \<open>
  C9. On a page rendered from a log of \<open>n\<close> turns, the chat messages stand for the
  turns in order: the stored turns 0 to \<open>n - 1\<close>, rendered by the loop over the log,
  then the turns that the run itself appends, rendered by \<^verbatim>\<open>process_message\<close>. A
  suggestion button of turn \<open>k\<close> with number \<open>j\<close> in its block has the key made of
  \<open>k\<close> and \<open>j\<close>, except that the turn at index 0 is keyed with \<open>n\<close> in place of 0,
  because \<^verbatim>\<open>message_index or len(...)\<close> takes 0 for missing. No button stands at turn
  \<open>n\<close>, which is the user turn of the live exchange, and the live answer is keyed with
  the index it gets in the log. So distinct pairs of turn index and suggestion index
  get distinct widget keys over the whole page, the turn at index 0 included.
\<close>

theorem rendered_suggestion_keys_distinct:
  assumes "messages s = Some log"
    and "((k, j), key) \<in> set (transcript_keys 0 (rendered (chat_page w cfg s)))"
    and "((k', j'), key') \<in> set (transcript_keys 0 (rendered (chat_page w cfg s)))"
    and "(k, j) \<noteq> (k', j')"
  shows "key = button_key (if k = 0 then length log else k) j \<and> k \<noteq> length log \<and> key \<noteq> key'"
proof -
  from chat_page_keys [OF assms(1,2)]
  have one: "k \<noteq> length log" "key = button_key (if k = 0 then length log else k) j"
    by (simp_all cong: if_cong)
  from chat_page_keys [OF assms(1,3)]
  have other: "k' \<noteq> length log" "key' = button_key (if k' = 0 then length log else k') j'"
    by (simp_all cong: if_cong)
  have "key \<noteq> key'"
  proof
    assume "key = key'"
    with one(2) other(2)
    have "button_key (if k = 0 then length log else k) j =
        button_key (if k' = 0 then length log else k') j'"
      by simp
    from button_key_inject [OF this]
    have "(if k = 0 then length log else k) = (if k' = 0 then length log else k')" and "j = j'"
      by simp_all
    with one(1) other(1) have "k = k'" and "j = j'"
      by (auto split: if_splits)
    with assms(4) show False
      by simp
  qed
  with one show ?thesis
    by simp
qed

lemma offering_fields:
  "CONN offering_state = Some \<lparr>token = ''t0k''\<rparr>"
  "messages offering_state = Some
       [\<lparr>turn_role = ''assistant'',
         turn_content = JArr [JObj [(''type'', JStr ''suggestions''),
           (''suggestions'', JArr [JStr ''By region?''])]],
         turn_request_id = JNull\<rparr>,
        \<lparr>turn_role = ''assistant'',
         turn_content = JArr [JObj [(''type'', JStr ''suggestions''),
           (''suggestions'', JArr [JStr ''By month?'', JStr ''By year?''])]],
         turn_request_id = JNull\<rparr>]"
  "widget_keys offering_state = []" "posts offering_state = []"
  "active_suggestion offering_state = None"
  "clicked offering_world = None" "chat_input offering_world = Some ''More''"
  "post offering_world n req = Inr offering_response"
  "status_code offering_response = 200"
  "response_json offering_response = Inr (JObj [(''message'', JObj [(''content'',
        JArr [JObj [(''type'', JStr ''suggestions''),
                    (''suggestions'', JArr [JStr ''Top products?''])]])])])"
  "headers_get (response_headers offering_response) ''X-Snowflake-Request-Id'' = None"
  by (simp_all add: offering_state_def offering_world_def offering_response_def
      sample_state_def sample_world_def headers_get_def)

lemma offering_page_rendered:
  "rendered (chat_page offering_world sample_config offering_state) =
     [Chat_message ''assistant'' [Expander ''Suggestions'' True [Button ''By region?'' ''2_0'']],
      Chat_message ''assistant''
        [Expander ''Suggestions'' True
           [Button ''By month?'' ''1_0'', Button ''By year?'' ''1_1'']],
      Chat_message ''user'' [Markdown (JStr ''More'')],
      Chat_message ''assistant''
        [Spinner ''Generating response...'',
         Expander ''Suggestions'' True [Button ''Top products?'' ''3_0'']]]"
  unfolding chat_page_def display_existing_messages_def handle_chat_input_def
    handle_active_suggestion_def process_message_def
  by (simp add: offering_fields then_do_def within_def
      append_message_def render_def send_message_def sample_tried Let_def
      dict_get_def from_result_def display_content_def
      message_index_or_def len_messages_def display_item_def and_then_def st_button_def
      button_key_values button_key_more set_active_suggestion_def returns_def
      rendered_def)

theorem rendered_suggestion_keys_distinct_witness:
  "transcript_keys 0 (rendered (chat_page offering_world sample_config offering_state)) =
     [((0, 0), ''2_0''), ((1, 0), ''1_0''), ((1, 1), ''1_1''), ((3, 0), ''3_0'')] \<and>
   ''2_0'' = button_key (if (0::nat) = 0 then 2 else 0) 0 \<and> (0::nat) \<noteq> 2 \<and> ''2_0'' \<noteq> ''3_0''"
proof -
  have keys: "transcript_keys 0 (rendered (chat_page offering_world sample_config offering_state)) =
      [((0, 0), ''2_0''), ((1, 0), ''1_0''), ((1, 1), ''1_1''), ((3, 0), ''3_0'')]"
    by (simp add: offering_page_rendered block_keys_def)
  have turn0: "((0, 0), ''2_0'') \<in>
      set (transcript_keys 0 (rendered (chat_page offering_world sample_config offering_state)))"
    and live: "((3, 0), ''3_0'') \<in>
      set (transcript_keys 0 (rendered (chat_page offering_world sample_config offering_state)))"
    unfolding keys by simp_all
  have apart: "((0::nat), (0::nat)) \<noteq> (3, 0)"
    by simp
  have turns: "length
       [\<lparr>turn_role = ''assistant'',
         turn_content = JArr [JObj [(''type'', JStr ''suggestions''),
           (''suggestions'', JArr [JStr ''By region?''])]],
         turn_request_id = JNull\<rparr>,
        \<lparr>turn_role = ''assistant'',
         turn_content = JArr [JObj [(''type'', JStr ''suggestions''),
           (''suggestions'', JArr [JStr ''By month?'', JStr ''By year?''])]],
         turn_request_id = JNull\<rparr>] = 2"
    by simp
  from rendered_suggestion_keys_distinct [OF offering_fields(2) turn0 live apart, unfolded turns]
    keys
  show ?thesis
    by blast
qed

end
